theory Spec2Isabelle
  imports Complex_Main "HOL-Library.Word" "HOL-Library.AList"
begin

section \<open>Go library functions used by the collectors\<close>

text \<open>
  A Go string is a sequence of bytes; it is modelled as \<open>string\<close> (a list of \<open>char\<close>,
  each one byte). A \<open>float64\<close> that holds a finite number is modelled as the real number
  it denotes; NaN and the infinities are outside the model. An \<open>error\<close> value is
  modelled by its message.
\<close>

type_synonym float64 = real
type_synonym error = string

subsection \<open>Package strings\<close>

text \<open>\<open>strings.HasPrefix(s, prefix)\<close>: \<open>len(s) >= len(prefix) && s[:len(prefix)] == prefix\<close>.\<close>

definition HasPrefix :: "string \<Rightarrow> string \<Rightarrow> bool" where
  "HasPrefix s p = (length p \<le> length s \<and> take (length p) s = p)"

text \<open>\<open>strings.Contains(s, substr)\<close>: some suffix of \<open>s\<close> starts with \<open>substr\<close>.\<close>

fun Contains :: "string \<Rightarrow> string \<Rightarrow> bool" where
  "Contains [] sub = (sub = [])"
| "Contains (c # cs) sub = (HasPrefix (c # cs) sub \<or> Contains cs sub)"

text \<open>
  \<open>strings.ToLower\<close> on the bytes of the ASCII range: \<open>A\<close>..\<open>Z\<close> become \<open>a\<close>..\<open>z\<close>, every
  other byte is kept. The library also lowers letters outside ASCII; none of them becomes
  a byte of the marker \<open>__total__\<close>, the only text the collector looks for in a lowered
  name.
\<close>

definition toLowerByte :: "char \<Rightarrow> char" where
  "toLowerByte c =
     (let n = (of_char c :: nat) in if 65 \<le> n \<and> n \<le> 90 then char_of (n + 32) else c)"

definition ToLower :: "string \<Rightarrow> string" where
  "ToLower s = map toLowerByte s"

text \<open>
  \<open>strings.ReplaceAll(s, old, new)\<close> for a non-empty \<open>old\<close>: the occurrences of \<open>old\<close> are
  found from left to right without overlap, each is replaced by \<open>new\<close>, and the search
  goes on behind the occurrence. \<open>replaceFrom\<close> is that scan; after a match at the head
  of \<open>c # cs\<close> the scan resumes at \<open>drop (length old) (c # cs)\<close>, which is
  \<open>drop (length old - 1) cs\<close>.
\<close>

fun replaceFrom :: "string \<Rightarrow> string \<Rightarrow> string \<Rightarrow> string" where
  "replaceFrom [] old new = []"
| "replaceFrom (c # cs) old new =
     (if HasPrefix (c # cs) old then new @ replaceFrom (drop (length old - 1) cs) old new
      else c # replaceFrom cs old new)"

text \<open>
  With an empty \<open>old\<close> the library inserts \<open>new\<close> in front of every character and at the
  end; both calls in the collector pass a non-empty literal.
\<close>

definition ReplaceAll :: "string \<Rightarrow> string \<Rightarrow> string \<Rightarrow> string" where
  "ReplaceAll s old new =
     (if old = [] then concat (map (\<lambda>c. new @ [c]) s) @ new else replaceFrom s old new)"

subsection \<open>Package strconv\<close>

text \<open>The digit table \<open>"0123456789"\<close> of \<open>strconv\<close>, read at an index below ten.\<close>

definition digit :: "nat \<Rightarrow> char" where
  "digit d = char_of (48 + d)"

text \<open>\<open>strconv.FormatUint(n, 10)\<close>: the decimal digits of \<open>n\<close>, most significant first.\<close>

fun FormatUint10 :: "nat \<Rightarrow> string" where
  "FormatUint10 n = (if n < 10 then [digit n] else FormatUint10 (n div 10) @ [digit (n mod 10)])"

declare FormatUint10.simps [simp del]

text \<open>\<open>strconv.Itoa(i)\<close>: a minus sign in front of the digits of a negative number.\<close>

definition Itoa :: "int \<Rightarrow> string" where
  "Itoa i = (if i < 0 then CHR ''-'' # FormatUint10 (nat (- i)) else FormatUint10 (nat i))"

text \<open>The number a string of decimal digits denotes (used to state what a rendering means).\<close>

definition digitValue :: "char \<Rightarrow> nat" where
  "digitValue c = of_char c - 48"

definition decimalValue :: "string \<Rightarrow> nat" where
  "decimalValue s = foldl (\<lambda>a c. 10 * a + digitValue c) 0 s"

definition isDigit :: "char \<Rightarrow> bool" where
  "isDigit c = (48 \<le> (of_char c :: nat) \<and> (of_char c :: nat) \<le> 57)"

subsection \<open>Conversions between numbers\<close>

text \<open>
  \<open>uint64(f)\<close> for a \<open>float64\<close>: the fraction is discarded (truncation towards zero). When
  the truncated value is not a \<open>uint64\<close> the language leaves the result to the
  implementation; \<open>oob\<close> stands for what the implementation does then.
\<close>

definition truncToZero :: "real \<Rightarrow> int" where
  "truncToZero f = (if 0 \<le> f then \<lfloor>f\<rfloor> else \<lceil>f\<rceil>)"

definition uint64_of_float64 :: "(float64 \<Rightarrow> 64 word) \<Rightarrow> float64 \<Rightarrow> 64 word" where
  "uint64_of_float64 oob f =
     (let t = truncToZero f in if 0 \<le> t \<and> t < 2 ^ 64 then word_of_int t else oob f)"

text \<open>
  \<open>float64(n)\<close> for a \<open>uint64\<close>: exact below \<open>2^53\<close>; above, the value is rounded to 53
  significant bits, to nearest and to even on a tie. Dividing such a value by 1024, a
  power of two, is exact on \<open>float64\<close>, so the quotient is the quotient of the reals.
\<close>

fun bitLen :: "nat \<Rightarrow> nat" where
  "bitLen n = (if n = 0 then 0 else Suc (bitLen (n div 2)))"

declare bitLen.simps [simp del]

definition float64_of_uint64 :: "64 word \<Rightarrow> float64" where
  "float64_of_uint64 w =
     (let n = unat w in
      if n < 2 ^ 53 then real n
      else let e = bitLen n - 53;
               q = n div 2 ^ e;
               r = n mod 2 ^ e;
               half = 2 ^ (e - 1);
               q' = (if half < r \<or> (r = half \<and> odd q) then q + 1 else q)
           in real (q' * 2 ^ e))"

section \<open>The web application collector: pure helpers\<close>

text \<open>\<open>normalizeAspNetInstanceName\<close>: two replacements, one after the other.\<close>

definition normalizeAspNetInstanceName :: "string \<Rightarrow> string" where
  "normalizeAspNetInstanceName name =
     (let name1 = ReplaceAll name ''_LM_W3SVC_1_ROOT_'' '''';
          name2 = ReplaceAll name1 ''_LM_W3SVC_'' ''site_''
      in name2)"

text \<open>\<open>formatPID\<close>: \<open>strconv.FormatUint(uint64(f), 10)\<close>.\<close>

definition formatPID :: "(float64 \<Rightarrow> 64 word) \<Rightarrow> float64 \<Rightarrow> string" where
  "formatPID oob f = FormatUint10 (unat (uint64_of_float64 oob f))"

section \<open>Prometheus metrics\<close>

text \<open>
  The parts of the Prometheus client the collectors use. A descriptor is its fully
  qualified name, its help text and its label names; a metric sent to the channel is a
  descriptor, a value type, a value and the label values. Label values are taken to be
  valid UTF-8, as the operating system interfaces deliver them, and every call below
  passes as many label values as the descriptor has label names, so the panics of
  \<open>MustNewConstMetric\<close> and \<open>WithLabelValues\<close> on malformed labels have no branch here.
\<close>

datatype ValueType = CounterValue | GaugeValue

record Desc =
  fqName :: string
  helpText :: string
  variableLabels :: "string list"

record Metric =
  desc :: Desc
  valueType :: ValueType
  metricValue :: float64
  labelValues :: "string list"

definition BuildFQName :: "string \<Rightarrow> string \<Rightarrow> string \<Rightarrow> string" where
  "BuildFQName namespace subsystem name =
     (if name = [] then []
      else (if namespace \<noteq> [] then namespace @ ''_'' else [])
         @ (if subsystem \<noteq> [] then subsystem @ ''_'' else [])
         @ name)"

definition NewDesc :: "string \<Rightarrow> string \<Rightarrow> string list \<Rightarrow> Desc" where
  "NewDesc fq h ls = \<lparr>fqName = fq, helpText = h, variableLabels = ls\<rparr>"

definition MustNewConstMetric :: "Desc \<Rightarrow> ValueType \<Rightarrow> float64 \<Rightarrow> string list \<Rightarrow> Metric" where
  "MustNewConstMetric d t v lvs = \<lparr>desc = d, valueType = t, metricValue = v, labelValues = lvs\<rparr>"

text \<open>
  A \<open>GaugeVec\<close> holds one gauge per tuple of label values. It is an association list
  with one entry per tuple; the order in which \<open>Collect\<close> sends the gauges of one vector
  is not fixed by the library, here it is the order of first insertion.
\<close>

record GaugeOpts =
  Namespace :: string
  Subsystem :: string
  Name :: string
  Help :: string

record GaugeVec =
  vecDesc :: Desc
  entries :: "(string list \<times> float64) list"

definition NewGaugeVec :: "GaugeOpts \<Rightarrow> string list \<Rightarrow> GaugeVec" where
  "NewGaugeVec opts labelNames =
     \<lparr>vecDesc = NewDesc (BuildFQName (Namespace opts) (Subsystem opts) (GaugeOpts.Name opts))
                  (Help opts) labelNames,
      entries = []\<rparr>"

definition Reset :: "GaugeVec \<Rightarrow> GaugeVec" where
  "Reset v = v\<lparr>entries := []\<rparr>"

text \<open>\<open>v.WithLabelValues(lvs...).Set(x)\<close>\<close>

definition WithLabelValues_Set :: "string list \<Rightarrow> float64 \<Rightarrow> GaugeVec \<Rightarrow> GaugeVec" where
  "WithLabelValues_Set lvs x v = v\<lparr>entries := AList.update lvs x (entries v)\<rparr>"

text \<open>\<open>v.Collect(ch)\<close>: the metrics sent to the channel.\<close>

definition GaugeVec_Collect :: "GaugeVec \<Rightarrow> Metric list" where
  "GaugeVec_Collect v =
     map (\<lambda>(lvs, x). \<lparr>desc = vecDesc v, valueType = GaugeValue, metricValue = x,
                      labelValues = lvs\<rparr>) (entries v)"

section \<open>The process collector\<close>

text \<open>
  What \<open>gopsutil\<close> reports for one process at the time of the cycle. A call returning
  \<open>(v, err)\<close> is \<open>Inl err\<close> when \<open>err\<close> is not nil and \<open>Inr v\<close> when it is nil; the
  collector reads \<open>v\<close> only in the second case. \<open>Name\<close> is the exception: its error is
  dropped and the returned string is used as it is, so it is the pair.
\<close>

record MemoryInfoStat =
  RSS :: "64 word"

record Process =
  Pid :: "32 word"
  Name :: "string \<times> error option"
  Username :: "error + string"
  Cmdline :: "error + string"
  Status :: "error + string list"
  CPUPercent :: "error + float64"
  MemoryInfo :: "error + MemoryInfoStat"

text \<open>
  The two gauge vectors are pointers, nil until \<open>Build\<close> has run; a method call through
  a nil one panics.
\<close>

record GinProcessCollector =
  cpuPercent :: "GaugeVec option"
  memoryMB :: "GaugeVec option"

datatype 'a run = NilPointerPanic | Return 'a

definition NewGinProcess :: GinProcessCollector where
  "NewGinProcess = \<lparr>cpuPercent = None, memoryMB = None\<rparr>"

subsection \<open>\<open>src/pkg/collector/ginprocess.go\<close>\<close>

definition GinProcessCollector_Build :: "GinProcessCollector \<Rightarrow> GinProcessCollector \<times> error option" where
  "GinProcessCollector_Build c =
     (c\<lparr>cpuPercent := Some (NewGaugeVec
            \<lparr>Namespace = ''windows'', Subsystem = ''ginprocess'', Name = ''cpu_percent'',
             Help = ''CPU utilization percent per process''\<rparr> [''pid'', ''name'']),
        memoryMB := Some (NewGaugeVec
            \<lparr>Namespace = ''windows'', Subsystem = ''ginprocess'', Name = ''memory_mb'',
             Help = ''Memory usage in MB per process''\<rparr> [''pid'', ''name''])\<rparr>,
      None)"

text \<open>The body of the loop over the processes, on the two vectors.\<close>

definition collectProcess :: "Process \<Rightarrow> GaugeVec \<times> GaugeVec \<Rightarrow> GaugeVec \<times> GaugeVec" where
  "collectProcess p vs =
     (let pid = Itoa (sint (Pid p));
          name = fst (Process.Name p);
          cv = (case CPUPercent p of
                  Inr cpu \<Rightarrow> WithLabelValues_Set [pid, name] cpu (fst vs)
                | Inl _ \<Rightarrow> fst vs);
          mv = (case MemoryInfo p of
                  Inr mem \<Rightarrow> WithLabelValues_Set [pid, name]
                               (float64_of_uint64 (RSS mem) / 1024 / 1024) (snd vs)
                | Inl _ \<Rightarrow> snd vs)
      in (cv, mv))"

text \<open>
  \<open>Collect\<close> takes the collector and the result of \<open>process.Processes()\<close>; it returns the
  collector with its vectors as the cycle leaves them, the metrics sent to the channel
  and the error.
\<close>

definition GinProcessCollector_Collect ::
  "GinProcessCollector \<Rightarrow> error + Process list
     \<Rightarrow> (GinProcessCollector \<times> Metric list \<times> error option) run" where
  "GinProcessCollector_Collect c processes =
     (case cpuPercent c of
        None \<Rightarrow> NilPointerPanic
      | Some cv0 \<Rightarrow>
         (case memoryMB c of
            None \<Rightarrow> NilPointerPanic
          | Some mv0 \<Rightarrow>
             (let cv = Reset cv0; mv = Reset mv0 in
              case processes of
                Inl err \<Rightarrow> Return (c\<lparr>cpuPercent := Some cv, memoryMB := Some mv\<rparr>, [], Some err)
              | Inr procs \<Rightarrow>
                 (let vs = fold collectProcess procs (cv, mv) in
                  Return (c\<lparr>cpuPercent := Some (fst vs), memoryMB := Some (snd vs)\<rparr>,
                          GaugeVec_Collect (fst vs) @ GaugeVec_Collect (snd vs), None)))))"

subsection \<open>\<open>src/unnamed/part_000\<close>: the same collector with five labels\<close>

definition GinProcessCollector_Build_000 :: "GinProcessCollector \<Rightarrow> GinProcessCollector \<times> error option" where
  "GinProcessCollector_Build_000 c =
     (c\<lparr>cpuPercent := Some (NewGaugeVec
            \<lparr>Namespace = ''windows'', Subsystem = ''ginprocess'', Name = ''cpu_percent'',
             Help = ''CPU utilization percent per process''\<rparr>
            [''pid'', ''name'', ''username'', ''cmdline'', ''status'']),
        memoryMB := Some (NewGaugeVec
            \<lparr>Namespace = ''windows'', Subsystem = ''ginprocess'', Name = ''memory_mb'',
             Help = ''Memory usage in MB per process''\<rparr>
            [''pid'', ''name'', ''username'', ''cmdline'', ''status''])\<rparr>,
      None)"

definition processLabels_000 :: "Process \<Rightarrow> string list" where
  "processLabels_000 p =
     (let pid = Itoa (sint (Pid p));
          name = fst (Process.Name p);
          username = (case Username p of Inl _ \<Rightarrow> ''unknown'' | Inr u \<Rightarrow> u);
          cmdline = (case Cmdline p of Inl _ \<Rightarrow> '''' | Inr l \<Rightarrow> l);
          status = (case Status p of Inl _ \<Rightarrow> [''unknown''] | Inr s \<Rightarrow> s);
          statusStr = (if 0 < length status then status ! 0 else '''')
      in [pid, name, username, cmdline, statusStr])"

definition collectProcess_000 :: "Process \<Rightarrow> GaugeVec \<times> GaugeVec \<Rightarrow> GaugeVec \<times> GaugeVec" where
  "collectProcess_000 p vs =
     (let lvs = processLabels_000 p;
          cv = (case CPUPercent p of
                  Inr cpu \<Rightarrow> WithLabelValues_Set lvs cpu (fst vs)
                | Inl _ \<Rightarrow> fst vs);
          mv = (case MemoryInfo p of
                  Inr mem \<Rightarrow> WithLabelValues_Set lvs
                               (float64_of_uint64 (RSS mem) / 1024 / 1024) (snd vs)
                | Inl _ \<Rightarrow> snd vs)
      in (cv, mv))"

definition GinProcessCollector_Collect_000 ::
  "GinProcessCollector \<Rightarrow> error + Process list
     \<Rightarrow> (GinProcessCollector \<times> Metric list \<times> error option) run" where
  "GinProcessCollector_Collect_000 c processes =
     (case cpuPercent c of
        None \<Rightarrow> NilPointerPanic
      | Some cv0 \<Rightarrow>
         (case memoryMB c of
            None \<Rightarrow> NilPointerPanic
          | Some mv0 \<Rightarrow>
             (let cv = Reset cv0; mv = Reset mv0 in
              case processes of
                Inl err \<Rightarrow> Return (c\<lparr>cpuPercent := Some cv, memoryMB := Some mv\<rparr>, [], Some err)
              | Inr procs \<Rightarrow>
                 (let vs = fold collectProcess_000 procs (cv, mv) in
                  Return (c\<lparr>cpuPercent := Some (fst vs), memoryMB := Some (snd vs)\<rparr>,
                          GaugeVec_Collect (fst vs) @ GaugeVec_Collect (snd vs), None)))))"

section \<open>The web application collector\<close>

text \<open>
  The three record types filled from the performance counters. The package \<open>pdh\<close> is
  not among the sources: a collector handle is a value of a type \<open>'h\<close>, and what
  \<open>pdh.NewCollector\<close> and the \<open>Collect\<close> method of a handle return is given from
  outside, \<open>Inl err\<close> for \<open>(nil, err)\<close> or \<open>err\<close> and \<open>Inr\<close> for success.
  \<open>pdh.InstancesAll\<close> is kept as a constructor of its own.
\<close>

record aspNetValues =
  Name :: string
  RequestsSec :: float64
  RequestsExecuting :: float64
  RequestsTotal :: float64
  ErrorsTotal :: float64
  OutputCacheTurnover :: float64

record processValues =
  Name :: string
  PercentProcessorTime :: float64
  WorkingSetPrivate :: float64
  IOReadBytesSec :: float64
  IOWriteBytesSec :: float64
  IDProcess :: float64

record netClrValues =
  Name :: string
  PercentTimeInGC :: float64
  BytesInAllHeaps :: float64
  Gen0Collections :: float64
  Gen1Collections :: float64
  Gen2Collections :: float64



datatype logRecord = Warn string error

record ('h, 'l) GinWebAppCollector =
  logger :: "'l option"
  aspNetColl :: "'h option"
  processColl :: "'h option"
  netClrColl :: "'h option"



text \<open>The metrics one record of each source sends to the channel (the loop bodies).\<close>

definition aspNetMetrics :: "aspNetValues \<Rightarrow> Metric list" where
  "aspNetMetrics d =
     (if Contains (ToLower (aspNetValues.Name d)) ''__total__'' then []
      else
       (let labelName = normalizeAspNetInstanceName (aspNetValues.Name d) in
        [MustNewConstMetric
           (NewDesc (BuildFQName ''windows'' ''ginwebapp'' ''requests_sec'')
              ''Requests per second'' [''app_path''])
           GaugeValue (RequestsSec d) [labelName],
         MustNewConstMetric
           (NewDesc (BuildFQName ''windows'' ''ginwebapp'' ''requests_executing'')
              ''Current executing requests'' [''app_path''])
           GaugeValue (RequestsExecuting d) [labelName],
         MustNewConstMetric
           (NewDesc (BuildFQName ''windows'' ''ginwebapp'' ''requests_total'')
              ''Total requests processed'' [''app_path''])
           CounterValue (RequestsTotal d) [labelName]]))"

text \<open>
  The sum of the two I/O rates is a \<open>float64\<close> addition; it is the sum of the reals
  here, its rounding is not modelled.
\<close>

definition processMetrics :: "(float64 \<Rightarrow> 64 word) \<Rightarrow> processValues \<Rightarrow> Metric list" where
  "processMetrics oob d =
     (let pid = formatPID oob (IDProcess d) in
      [MustNewConstMetric
         (NewDesc (BuildFQName ''windows'' ''ginwebapp'' ''process_cpu_percent'')
            ''Processor time percentage'' [''process'', ''pid''])
         GaugeValue (PercentProcessorTime d) [processValues.Name d, pid],
       MustNewConstMetric
         (NewDesc (BuildFQName ''windows'' ''ginwebapp'' ''process_memory_bytes'')
            ''Working Set Private bytes'' [''process'', ''pid''])
         GaugeValue (WorkingSetPrivate d) [processValues.Name d, pid],
       MustNewConstMetric
         (NewDesc (BuildFQName ''windows'' ''ginwebapp'' ''process_io_bytes_sec'')
            ''Total IO bytes per second'' [''process'', ''pid''])
         GaugeValue (IOReadBytesSec d + IOWriteBytesSec d) [processValues.Name d, pid]])"

definition netClrMetrics :: "netClrValues \<Rightarrow> Metric list" where
  "netClrMetrics d =
     (if Contains (netClrValues.Name d) ''_Global_'' then []
      else
       [MustNewConstMetric
          (NewDesc (BuildFQName ''windows'' ''ginwebapp'' ''dotnet_gc_time_percent'')
             ''Percentage of time in GC'' [''process''])
          GaugeValue (PercentTimeInGC d) [netClrValues.Name d],
        MustNewConstMetric
          (NewDesc (BuildFQName ''windows'' ''ginwebapp'' ''dotnet_heap_bytes'')
             ''Bytes in all heaps'' [''process''])
          GaugeValue (BytesInAllHeaps d) [netClrValues.Name d]])"

text \<open>
  \<open>Collect\<close> takes what the \<open>Collect\<close> method of a handle returns for each of the three
  record types, and the collector. It returns the metrics sent to the channel, in their
  order, the records written to the logger, and the error.
\<close>

definition GinWebAppCollector_Collect ::
  "(float64 \<Rightarrow> 64 word)
     \<Rightarrow> ('h \<Rightarrow> error + aspNetValues list) \<Rightarrow> ('h \<Rightarrow> error + processValues list)
     \<Rightarrow> ('h \<Rightarrow> error + netClrValues list)
     \<Rightarrow> ('h, 'l) GinWebAppCollector \<Rightarrow> Metric list \<times> logRecord list \<times> error option" where
  "GinWebAppCollector_Collect oob sampleAspNet sampleProcess sampleNetClr c =
     (let ch1 = (case aspNetColl c of
                   None \<Rightarrow> []
                 | Some h \<Rightarrow>
                    (case sampleAspNet h of
                       Inr aspNetData \<Rightarrow> concat (map aspNetMetrics aspNetData)
                     | Inl _ \<Rightarrow> []));
          ch2 = (case processColl c of
                   None \<Rightarrow> []
                 | Some h \<Rightarrow>
                    (case sampleProcess h of
                       Inr processData \<Rightarrow> concat (map (processMetrics oob) processData)
                     | Inl _ \<Rightarrow> []));
          ch3 = (case netClrColl c of
                   None \<Rightarrow> []
                 | Some h \<Rightarrow>
                    (case sampleNetClr h of
                       Inr netClrData \<Rightarrow> concat (map netClrMetrics netClrData)
                     | Inl _ \<Rightarrow> []))
      in (ch1 @ ch2 @ ch3, [], None))"

section \<open>Auxiliary notions for the proofs\<close>

text \<open>
  The loop of the process collector acts on each of its two vectors on its own:
  \<open>setEach lab rd\<close> is the loop on one vector, where \<open>lab\<close> gives the label values of a
  process and \<open>rd\<close> the value read for it, or the error of the read.
\<close>

definition setEach ::
  "('p \<Rightarrow> string list) \<Rightarrow> ('p \<Rightarrow> error + float64) \<Rightarrow> 'p list \<Rightarrow> GaugeVec \<Rightarrow> GaugeVec" where
  "setEach lab rd ps v =
     fold (\<lambda>p w. case rd p of Inr x \<Rightarrow> WithLabelValues_Set (lab p) x w | Inl _ \<Rightarrow> w) ps v"

text \<open>The value of the memory gauge of a process: resident bytes divided by 1024 twice.\<close>

definition memoryMBOf :: "Process \<Rightarrow> error + float64" where
  "memoryMBOf p =
     (case MemoryInfo p of
        Inr mem \<Rightarrow> Inr (float64_of_uint64 (RSS mem) / 1024 / 1024)
      | Inl e \<Rightarrow> Inl e)"

text \<open>The label values of a process in \<open>src/pkg/collector/ginprocess.go\<close>.\<close>

definition processLabels :: "Process \<Rightarrow> string list" where
  "processLabels p = [Itoa (sint (Pid p)), fst (Process.Name p)]"

text \<open>
  The value read for the last process of the list that has the label values \<open>L\<close> and
  whose read succeeded; \<open>None\<close> when the list has no such process.
\<close>

definition lastRead ::
  "('p \<Rightarrow> string list) \<Rightarrow> ('p \<Rightarrow> error + float64) \<Rightarrow> 'p list \<Rightarrow> string list
     \<Rightarrow> float64 option" where
  "lastRead lab rd ps L =
     (let qs = filter (\<lambda>q. lab q = L \<and> \<not> isl (rd q)) ps
      in if qs = [] then None
         else (case rd (last qs) of Inr x \<Rightarrow> Some x | Inl _ \<Rightarrow> None))"

text \<open>
  What one counter source sends in a cycle of the web application collector: nothing
  when its handle is nil or its sample call fails, else the metrics of its records in
  their order.
\<close>

definition sourceMetrics ::
  "'h option \<Rightarrow> ('h \<Rightarrow> error + 'r list) \<Rightarrow> ('r \<Rightarrow> Metric list) \<Rightarrow> Metric list" where
  "sourceMetrics coll sample metricsOf =
     (case coll of
        None \<Rightarrow> []
      | Some h \<Rightarrow> (case sample h of Inr records \<Rightarrow> concat (map metricsOf records) | Inl _ \<Rightarrow> []))"

section \<open>Facts about the library functions\<close>

lemma HasPrefix_append_pat: "HasPrefix s (a @ b) \<Longrightarrow> HasPrefix s a"
  by (auto simp: HasPrefix_def take_add dest: arg_cong [where f = "take (length a)"])

lemma Contains_append_pat: "Contains s (a @ b) \<Longrightarrow> Contains s a"
  by (induction s) (auto dest: HasPrefix_append_pat)

lemma replaceFrom_absent: "\<not> Contains s old \<Longrightarrow> replaceFrom s old new = s"
  by (induction s) auto

lemma replaceFrom_at_head:
  "old \<noteq> [] \<Longrightarrow> replaceFrom (old @ r) old new = new @ replaceFrom r old new"
  by (cases old) (simp_all add: HasPrefix_def)

lemma ReplaceAll_absent: "old \<noteq> [] \<Longrightarrow> \<not> Contains s old \<Longrightarrow> ReplaceAll s old new = s"
  by (simp add: ReplaceAll_def replaceFrom_absent)

lemma ReplaceAll_at_head:
  "old \<noteq> [] \<Longrightarrow> ReplaceAll (old @ r) old new = new @ ReplaceAll r old new"
  by (simp add: ReplaceAll_def replaceFrom_at_head)

lemma Contains_root_imp_site:
  "Contains s ''_LM_W3SVC_1_ROOT_'' \<Longrightarrow> Contains s ''_LM_W3SVC_''"
  using Contains_append_pat [of s "''_LM_W3SVC_''" "''1_ROOT_''"] by simp

lemma digit_isDigit: "d < 10 \<Longrightarrow> isDigit (digit d)"
  by (simp add: digit_def isDigit_def)

lemma digitValue_digit: "d < 10 \<Longrightarrow> digitValue (digit d) = d"
  by (simp add: digit_def digitValue_def)

lemma FormatUint10_digits: "c \<in> set (FormatUint10 n) \<Longrightarrow> isDigit c"
proof (induction n rule: FormatUint10.induct)
  case (1 n)
  show ?case
  proof (cases "n < 10")
    case True
    with "1.prems" show ?thesis
      by (simp add: FormatUint10.simps [of n] digit_isDigit)
  next
    case False
    with 1 show ?thesis
      by (auto simp add: FormatUint10.simps [of n] digit_isDigit)
  qed
qed

lemma FormatUint10_nonempty: "FormatUint10 n \<noteq> []"
  by (simp add: FormatUint10.simps [of n])

lemma decimalValue_snoc: "decimalValue (s @ [c]) = 10 * decimalValue s + digitValue c"
  by (simp add: decimalValue_def)

lemma decimalValue_FormatUint10: "decimalValue (FormatUint10 n) = n"
proof (induction n rule: FormatUint10.induct)
  case (1 n)
  show ?case
  proof (cases "n < 10")
    case True
    then show ?thesis
      by (simp add: FormatUint10.simps [of n] decimalValue_def digitValue_digit)
  next
    case False
    with 1 show ?thesis
      by (simp add: FormatUint10.simps [of n] decimalValue_snoc digitValue_digit)
  qed
qed

lemma FormatUint10_inj: "FormatUint10 m = FormatUint10 n \<Longrightarrow> m = n"
  by (metis decimalValue_FormatUint10)

lemma FormatUint10_no_minus: "FormatUint10 n \<noteq> CHR ''-'' # s"
proof
  assume "FormatUint10 n = CHR ''-'' # s"
  then have "CHR ''-'' \<in> set (FormatUint10 n)" by simp
  then have "isDigit CHR ''-''" by (rule FormatUint10_digits)
  then show False by (simp add: isDigit_def)
qed

lemma Itoa_inj: "Itoa i = Itoa j \<Longrightarrow> i = j"
  using FormatUint10_no_minus [of "nat i"] FormatUint10_no_minus [of "nat j"]
  by (auto simp: Itoa_def dest!: FormatUint10_inj split: if_splits) (metis)+

lemma HasPrefix_within: "length p \<le> length x \<Longrightarrow> HasPrefix (x @ y) p = HasPrefix x p"
  by (simp add: HasPrefix_def)

lemma replaceFrom_leftmost:
  assumes "old \<noteq> []"
  shows "\<not> Contains (a @ butlast old) old \<Longrightarrow>
           replaceFrom (a @ old @ r) old new = a @ new @ replaceFrom r old new"
proof (induction a)
  case Nil
  from assms show ?case by (simp add: replaceFrom_at_head)
next
  case (Cons c a)
  from Cons.prems have here: "\<not> HasPrefix (c # a @ butlast old) old"
    and later: "\<not> Contains (a @ butlast old) old"
    by simp_all
  from assms have split: "old = butlast old @ [last old]" by simp
  have "c # a @ old @ r = (c # a @ butlast old) @ ([last old] @ r)"
    using split by (metis append.assoc append_Cons)
  moreover have "length old \<le> length (c # a @ butlast old)" by simp
  ultimately have "HasPrefix (c # a @ old @ r) old = HasPrefix (c # a @ butlast old) old"
    by (simp only: HasPrefix_within)
  with here have "\<not> HasPrefix (c # a @ old @ r) old" by simp
  then have "replaceFrom ((c # a) @ old @ r) old new = c # replaceFrom (a @ old @ r) old new"
    by simp
  with Cons.IH [OF later] show ?case by simp
qed

lemma ReplaceAll_leftmost:
  "old \<noteq> [] \<Longrightarrow> \<not> Contains (a @ butlast old) old \<Longrightarrow>
     ReplaceAll (a @ old @ r) old new = a @ new @ ReplaceAll r old new"
  by (simp add: ReplaceAll_def replaceFrom_leftmost)


section \<open>Instance names of the web application collector\<close>

text \<open>
  C2, as the claim states it, fails: the two replacements act on every occurrence of
  their token, not on a prefix only. An identity that starts with the root-site token
  and holds a further site token is changed behind the prefix as well; an identity
  that starts with the site token and holds a second one is rewritten twice; and an
  identity that starts with neither token, but holds one further in, is changed.
\<close>

theorem normalize_not_prefix_only:
  "HasPrefix ''_LM_W3SVC_1_ROOT_A_LM_W3SVC_2'' ''_LM_W3SVC_1_ROOT_''
   \<and> normalizeAspNetInstanceName ''_LM_W3SVC_1_ROOT_A_LM_W3SVC_2'' = ''Asite_2''
   \<and> drop (length ''_LM_W3SVC_1_ROOT_'') ''_LM_W3SVC_1_ROOT_A_LM_W3SVC_2'' = ''A_LM_W3SVC_2''
   \<and> normalizeAspNetInstanceName ''_LM_W3SVC_2_LM_W3SVC_3'' = ''site_2site_3''
   \<and> \<not> HasPrefix ''x_LM_W3SVC_2'' ''_LM_W3SVC_''
   \<and> normalizeAspNetInstanceName ''x_LM_W3SVC_2'' = ''xsite_2''"
  by (simp add: normalizeAspNetInstanceName_def ReplaceAll_def HasPrefix_def)

text \<open>
  C2, amended: \<open>normalizeAspNetInstanceName\<close> is two passes of \<open>strings.ReplaceAll\<close> over the
  whole identity, not over a prefix: the first removes the root-site token
  \<open>_LM_W3SVC_1_ROOT_\<close>, the second, on the result of the first, replaces the site token
  \<open>_LM_W3SVC_\<close> by \<open>site_\<close>. A pass scans once from left to right and rewrites the
  occurrences it meets without overlap: it leaves a string without the token unchanged,
  and on a string whose leftmost occurrence of the token begins behind \<open>a\<close> it returns
  \<open>a\<close>, the replacement, and the pass on what follows that occurrence (these two laws
  fix the pass on every string). What a pass has produced or skipped it does not scan
  again: a site token that overlaps a rewritten one stays, and so does a root-site token
  that only arises from a removal, while the second pass does see the site tokens the
  first pass leaves or creates. In particular: the
  root-site token followed by a remainder without the site token gives the remainder;
  the site token followed by a remainder without the site token, in an identity without
  the root-site token, gives \<open>site_\<close> and the remainder; an identity that holds no site
  token is returned unchanged; a leading root-site token is dropped and the rest
  normalized. The function is total: there is no error.
\<close>

theorem normalize_rewrites_tokens:
  "normalizeAspNetInstanceName s
     = ReplaceAll (ReplaceAll s ''_LM_W3SVC_1_ROOT_'' '''') ''_LM_W3SVC_'' ''site_''
   \<and> (old \<noteq> [] \<and> \<not> Contains t old \<longrightarrow> ReplaceAll t old new = t)
   \<and> (old \<noteq> [] \<and> \<not> Contains (a @ butlast old) old \<longrightarrow>
        ReplaceAll (a @ old @ t) old new = a @ new @ ReplaceAll t old new)
   \<and> (\<not> Contains r ''_LM_W3SVC_'' \<longrightarrow>
      normalizeAspNetInstanceName (''_LM_W3SVC_1_ROOT_'' @ r) = r)
   \<and> (\<not> Contains (''_LM_W3SVC_'' @ r) ''_LM_W3SVC_1_ROOT_'' \<and> \<not> Contains r ''_LM_W3SVC_'' \<longrightarrow>
      normalizeAspNetInstanceName (''_LM_W3SVC_'' @ r) = ''site_'' @ r)
   \<and> (\<not> Contains r ''_LM_W3SVC_'' \<longrightarrow> normalizeAspNetInstanceName r = r)
   \<and> normalizeAspNetInstanceName (''_LM_W3SVC_1_ROOT_'' @ r) = normalizeAspNetInstanceName r"
proof -
  have passes: "normalizeAspNetInstanceName s
     = ReplaceAll (ReplaceAll s ''_LM_W3SVC_1_ROOT_'' '''') ''_LM_W3SVC_'' ''site_''"
    by (simp add: normalizeAspNetInstanceName_def)
  have absent: "old \<noteq> [] \<and> \<not> Contains t old \<longrightarrow> ReplaceAll t old new = t"
    by (simp add: ReplaceAll_absent)
  have leftmost: "old \<noteq> [] \<and> \<not> Contains (a @ butlast old) old \<longrightarrow>
        ReplaceAll (a @ old @ t) old new = a @ new @ ReplaceAll t old new"
    by (simp add: ReplaceAll_leftmost)
  have strip: "ReplaceAll (''_LM_W3SVC_1_ROOT_'' @ r) ''_LM_W3SVC_1_ROOT_'' ''''
                 = ReplaceAll r ''_LM_W3SVC_1_ROOT_'' ''''"
    using ReplaceAll_at_head [of "''_LM_W3SVC_1_ROOT_''" r "''''"] by simp
  have site: "ReplaceAll (''_LM_W3SVC_'' @ r) ''_LM_W3SVC_'' ''site_''
                 = ''site_'' @ ReplaceAll r ''_LM_W3SVC_'' ''site_''"
    using ReplaceAll_at_head [of "''_LM_W3SVC_''" r "''site_''"] by simp
  have unchanged: "normalizeAspNetInstanceName u = u" if "\<not> Contains u ''_LM_W3SVC_''" for u
  proof -
    from that have "\<not> Contains u ''_LM_W3SVC_1_ROOT_''"
      using Contains_root_imp_site by blast
    then have "ReplaceAll u ''_LM_W3SVC_1_ROOT_'' '''' = u"
      by (simp add: ReplaceAll_absent)
    with that show ?thesis
      by (simp add: normalizeAspNetInstanceName_def ReplaceAll_absent)
  qed
  have rest: "normalizeAspNetInstanceName (''_LM_W3SVC_1_ROOT_'' @ r) = normalizeAspNetInstanceName r"
    unfolding normalizeAspNetInstanceName_def strip by simp
  have generic: "normalizeAspNetInstanceName (''_LM_W3SVC_'' @ r) = ''site_'' @ r"
    if "\<not> Contains (''_LM_W3SVC_'' @ r) ''_LM_W3SVC_1_ROOT_''" and "\<not> Contains r ''_LM_W3SVC_''"
  proof -
    from that(1) have "ReplaceAll (''_LM_W3SVC_'' @ r) ''_LM_W3SVC_1_ROOT_'' '''' = ''_LM_W3SVC_'' @ r"
      by (simp add: ReplaceAll_absent)
    moreover from that(2) have "ReplaceAll r ''_LM_W3SVC_'' ''site_'' = r"
      by (simp add: ReplaceAll_absent)
    ultimately show ?thesis
      unfolding normalizeAspNetInstanceName_def using site by simp
  qed
  from unchanged [of r] rest generic have prefixes:
    "(\<not> Contains r ''_LM_W3SVC_'' \<longrightarrow>
      normalizeAspNetInstanceName (''_LM_W3SVC_1_ROOT_'' @ r) = r)
   \<and> (\<not> Contains (''_LM_W3SVC_'' @ r) ''_LM_W3SVC_1_ROOT_'' \<and> \<not> Contains r ''_LM_W3SVC_'' \<longrightarrow>
      normalizeAspNetInstanceName (''_LM_W3SVC_'' @ r) = ''site_'' @ r)
   \<and> (\<not> Contains r ''_LM_W3SVC_'' \<longrightarrow> normalizeAspNetInstanceName r = r)
   \<and> normalizeAspNetInstanceName (''_LM_W3SVC_1_ROOT_'' @ r) = normalizeAspNetInstanceName r"
    by simp
  from passes absent leftmost prefixes show ?thesis by (intro conjI) blast+
qed

theorem normalize_rewrites_tokens_witness:
  "normalizeAspNetInstanceName ''_LM_W3SVC_1_ROOT_MyApp'' = ''MyApp''
   \<and> normalizeAspNetInstanceName ''_LM_W3SVC_2_ROOT_Shop'' = ''site_2_ROOT_Shop''
   \<and> normalizeAspNetInstanceName ''Default Web Site'' = ''Default Web Site''
   \<and> normalizeAspNetInstanceName ''x_LM_W3SVC_1_ROOT_y'' = ''xy''
   \<and> normalizeAspNetInstanceName ''_LM_W3SVC_LM_W3SVC_x'' = ''site_LM_W3SVC_x''"
proof -
  note T = normalize_rewrites_tokens
  have a: "normalizeAspNetInstanceName ''_LM_W3SVC_1_ROOT_MyApp'' = ''MyApp''"
    using T [where r = "''MyApp''" and s = "[]" and t = "[]" and a = "[]" and old = "[]" and new = "[]"]
    by (simp add: HasPrefix_def)
  have b: "normalizeAspNetInstanceName ''_LM_W3SVC_2_ROOT_Shop'' = ''site_2_ROOT_Shop''"
    using T [where r = "''2_ROOT_Shop''" and s = "[]" and t = "[]" and a = "[]" and old = "[]" and new = "[]"]
    by (simp add: HasPrefix_def)
  have c: "normalizeAspNetInstanceName ''Default Web Site'' = ''Default Web Site''"
    using T [where r = "''Default Web Site''" and s = "[]" and t = "[]" and a = "[]" and old = "[]" and new = "[]"]
    by (simp add: HasPrefix_def)
  have e: "normalizeAspNetInstanceName ''_LM_W3SVC_LM_W3SVC_x'' = ''site_LM_W3SVC_x''"
    using T [where r = "''LM_W3SVC_x''" and s = "[]" and t = "[]" and a = "[]" and old = "[]" and new = "[]"]
    by (simp add: HasPrefix_def)
  have d1: "normalizeAspNetInstanceName ''x_LM_W3SVC_1_ROOT_y''
              = ReplaceAll (ReplaceAll ''x_LM_W3SVC_1_ROOT_y'' ''_LM_W3SVC_1_ROOT_'' '''')
                  ''_LM_W3SVC_'' ''site_''"
    using T [where s = "''x_LM_W3SVC_1_ROOT_y''" and r = "[]" and t = "[]" and a = "[]" and old = "[]" and new = "[]"]
    by blast
  have d2: "ReplaceAll (''x'' @ ''_LM_W3SVC_1_ROOT_'' @ ''y'') ''_LM_W3SVC_1_ROOT_'' ''''
              = ''x'' @ '''' @ ReplaceAll ''y'' ''_LM_W3SVC_1_ROOT_'' ''''"
    using T [where a = "''x''" and old = "''_LM_W3SVC_1_ROOT_''" and t = "''y''" and new = "''''"
               and s = "[]" and r = "[]"]
    by (simp add: HasPrefix_def)
  have d3: "ReplaceAll ''y'' ''_LM_W3SVC_1_ROOT_'' '''' = ''y''"
    using T [where a = "[]" and old = "''_LM_W3SVC_1_ROOT_''" and t = "''y''" and new = "''''"
               and s = "[]" and r = "[]"]
    by (simp add: HasPrefix_def)
  have d4: "ReplaceAll ''xy'' ''_LM_W3SVC_'' ''site_'' = ''xy''"
    using T [where a = "[]" and old = "''_LM_W3SVC_''" and t = "''xy''" and new = "''site_''"
               and s = "[]" and r = "[]"]
    by (simp add: HasPrefix_def)
  from d2 d3 have "ReplaceAll ''x_LM_W3SVC_1_ROOT_y'' ''_LM_W3SVC_1_ROOT_'' '''' = ''xy''"
    by simp
  with d1 d4 have d: "normalizeAspNetInstanceName ''x_LM_W3SVC_1_ROOT_y'' = ''xy''"
    by simp
  from a b c d e show ?thesis by blast
qed

section \<open>Process identifiers of the web application collector\<close>

text \<open>
  C5, as the claim states it, fails: it speaks of every non-negative \<open>float64\<close>, and
  \<open>formatPID\<close> converts with \<open>uint64(f)\<close> without a guard. At \<open>2^64\<close>, a non-negative
  \<open>float64\<close>, truncation gives \<open>18446744073709551616\<close>, which no \<open>uint64\<close> holds: an
  implementation whose conversion wraps returns \<open>0\<close>, one whose conversion saturates
  returns \<open>18446744073709551615\<close>, and neither is the truncated value.
\<close>

theorem formatPID_beyond_uint64:
  "(0::real) \<le> 2 ^ 64
   \<and> FormatUint10 (nat \<lfloor>(2::real) ^ 64\<rfloor>) = ''18446744073709551616''
   \<and> formatPID (\<lambda>_. 0) (2 ^ 64) = ''0''
   \<and> formatPID (\<lambda>_. 18446744073709551615) (2 ^ 64) = ''18446744073709551615''"
  by (simp add: formatPID_def uint64_of_float64_def truncToZero_def FormatUint10.simps
        digit_def char_of_eq_iff)

text \<open>
  C5, amended: for every \<open>float64\<close> \<open>f\<close> with \<open>0 \<le> f < 2^64\<close>, \<open>formatPID\<close> returns the
  decimal digits of \<open>f\<close> truncated to its integer part: the string is not empty, has
  digits only (so no sign and no fraction), and denotes that integer. For every input
  and every implementation of the conversion the result is a non-empty string of
  digits that denotes a number below \<open>2^64\<close>; so from \<open>2^64\<close> on it is never the
  truncated value.
\<close>

theorem formatPID_decimal:
  "formatPID oob f \<noteq> []
   \<and> (\<forall>c \<in> set (formatPID oob f). isDigit c \<and> c \<noteq> CHR ''-'' \<and> c \<noteq> CHR ''.'')
   \<and> decimalValue (formatPID oob f) < 2 ^ 64
   \<and> (0 \<le> f \<and> f < 2 ^ 64 \<longrightarrow>
        formatPID oob f = FormatUint10 (nat \<lfloor>f\<rfloor>) \<and> decimalValue (formatPID oob f) = nat \<lfloor>f\<rfloor>)"
proof -
  have digits: "isDigit c \<and> c \<noteq> CHR ''-'' \<and> c \<noteq> CHR ''.''" if "c \<in> set (formatPID oob f)" for c
  proof -
    from that have d: "isDigit c"
      unfolding formatPID_def by (rule FormatUint10_digits)
    then show ?thesis by (auto simp: isDigit_def)
  qed
  have inrange: "formatPID oob f = FormatUint10 (nat \<lfloor>f\<rfloor>)" if "0 \<le> f" and "f < 2 ^ 64"
  proof -
    from that have fl: "0 \<le> \<lfloor>f\<rfloor>" "\<lfloor>f\<rfloor> < 2 ^ 64"
      by (simp_all add: floor_less_iff)
    then have "unat (word_of_int \<lfloor>f\<rfloor> :: 64 word) = nat \<lfloor>f\<rfloor>"
      by (simp add: unat_eq_nat_uint uint_word_of_int take_bit_int_eq_self)
    with that fl show ?thesis
      by (simp add: formatPID_def uint64_of_float64_def truncToZero_def)
  qed
  have bound: "decimalValue (formatPID oob f) < 2 ^ 64"
  proof -
    have "unat (uint64_of_float64 oob f) < 2 ^ LENGTH(64)"
      by (rule unsigned_less)
    then show ?thesis
      by (simp add: formatPID_def decimalValue_FormatUint10)
  qed
  show ?thesis
    using digits inrange bound
    by (auto simp add: decimalValue_FormatUint10) (simp add: formatPID_def FormatUint10_nonempty)
qed

theorem formatPID_decimal_witness:
  "formatPID (\<lambda>_. 0) 4123 = ''4123'' \<and> formatPID (\<lambda>_. 0) 0 = ''0''
   \<and> formatPID (\<lambda>_. 0) (4123 + 3 / 4) = ''4123''"
  using formatPID_decimal [of "\<lambda>_. 0" 4123] formatPID_decimal [of "\<lambda>_. 0" 0]
        formatPID_decimal [of "\<lambda>_. 0" "4123 + 3 / 4"]
  by (simp add: FormatUint10.simps digit_def char_of_eq_iff)

section \<open>Facts about gauge vectors and the loop over the processes\<close>

lemma setEach_Nil: "setEach lab rd [] v = v"
  by (simp add: setEach_def)

lemma setEach_snoc:
  "setEach lab rd (ps @ [q]) v =
     (case rd q of Inr x \<Rightarrow> WithLabelValues_Set (lab q) x (setEach lab rd ps v)
                 | Inl _ \<Rightarrow> setEach lab rd ps v)"
  unfolding setEach_def by simp

lemma vecDesc_Reset: "vecDesc (Reset v) = vecDesc v"
  by (simp add: Reset_def)

lemma vecDesc_setEach: "vecDesc (setEach lab rd ps v) = vecDesc v"
  by (induction ps rule: rev_induct)
     (simp_all add: setEach_Nil setEach_snoc WithLabelValues_Set_def split: sum.splits)

lemma setEach_distinct:
  "distinct (map fst (entries v)) \<Longrightarrow> distinct (map fst (entries (setEach lab rd ps v)))"
  by (induction ps rule: rev_induct)
     (simp_all add: setEach_Nil setEach_snoc WithLabelValues_Set_def distinct_update
        split: sum.splits)

lemma lastRead_Nil: "lastRead lab rd [] L = None"
  by (simp add: lastRead_def)

lemma lastRead_snoc:
  "lastRead lab rd (ps @ [q]) L =
     (case rd q of Inr x \<Rightarrow> if lab q = L then Some x else lastRead lab rd ps L
                 | Inl _ \<Rightarrow> lastRead lab rd ps L)"
  by (cases "rd q") (simp_all add: lastRead_def)

lemma lastRead_origin:
  "lastRead lab rd ps L = Some x \<Longrightarrow> \<exists>q \<in> set ps. lab q = L \<and> rd q = Inr x"
proof (induction ps rule: rev_induct)
  case Nil
  then show ?case by (simp add: lastRead_Nil)
next
  case (snoc q ps)
  then show ?case
    by (cases "rd q") (auto simp: lastRead_snoc split: if_splits)
qed

lemma lastRead_present:
  "p \<in> set ps \<Longrightarrow> rd p = Inr x \<Longrightarrow> \<exists>y. lastRead lab rd ps (lab p) = Some y"
proof (induction ps rule: rev_induct)
  case Nil
  from Nil.prems(1) show ?case by simp
next
  case (snoc q ps)
  show ?case
  proof (cases "rd q")
    case (Inl e)
    with snoc.prems have "p \<in> set ps" by auto
    with snoc.IH snoc.prems(2) Inl show ?thesis by (simp add: lastRead_snoc)
  next
    case (Inr y)
    show ?thesis
    proof (cases "lab q = lab p")
      case True
      with Inr show ?thesis by (simp add: lastRead_snoc)
    next
      case False
      then have "q \<noteq> p" by blast
      with snoc.prems have "p \<in> set ps" by simp
      with snoc.IH snoc.prems(2) Inr False show ?thesis by (simp add: lastRead_snoc)
    qed
  qed
qed

lemma lastRead_absent:
  "\<forall>q \<in> set ps. lab q = L \<longrightarrow> isl (rd q) \<Longrightarrow> lastRead lab rd ps L = None"
proof -
  assume "\<forall>q \<in> set ps. lab q = L \<longrightarrow> isl (rd q)"
  then have "filter (\<lambda>q. lab q = L \<and> \<not> isl (rd q)) ps = []"
    by (simp add: filter_empty_conv)
  then show ?thesis by (simp add: lastRead_def)
qed

lemma lastRead_unique:
  assumes "p \<in> set ps" and "rd p = Inr x"
    and same: "\<forall>q \<in> set ps. lab q = lab p \<longrightarrow> q = p"
  shows "lastRead lab rd ps (lab p) = Some x"
proof -
  from lastRead_present [of p ps rd x lab, OF assms(1,2)] obtain y
    where y: "lastRead lab rd ps (lab p) = Some y" by blast
  from lastRead_origin [of lab rd ps "lab p" y, OF y] obtain q
    where "q \<in> set ps" and "lab q = lab p" and "rd q = Inr y" by blast
  with same have "rd p = Inr y" by blast
  with assms(2) have "y = x" by simp
  with y show ?thesis by simp
qed

lemma map_of_setEach:
  "map_of (entries (setEach lab rd ps v)) L =
     (case lastRead lab rd ps L of Some x \<Rightarrow> Some x | None \<Rightarrow> map_of (entries v) L)"
proof (induction ps rule: rev_induct)
  case Nil
  show ?case by (simp add: setEach_Nil lastRead_Nil)
next
  case (snoc q ps)
  show ?case
  proof (cases "rd q")
    case (Inl e)
    with snoc show ?thesis by (simp add: setEach_snoc lastRead_snoc)
  next
    case (Inr y)
    with snoc show ?thesis
      by (simp add: setEach_snoc lastRead_snoc WithLabelValues_Set_def update_conv')
  qed
qed

text \<open>The gauges a vector sends after the loop, when the loop started on the reset vector.\<close>

lemma Collect_vec_iff:
  "m \<in> set (GaugeVec_Collect (setEach lab rd ps (Reset v))) \<longleftrightarrow>
     desc m = vecDesc v \<and> valueType m = GaugeValue
     \<and> lastRead lab rd ps (labelValues m) = Some (metricValue m)"
proof -
  let ?V = "setEach lab rd ps (Reset v)"
  have d: "distinct (map fst (entries ?V))"
    by (rule setEach_distinct) (simp add: Reset_def)
  have look: "(L, x) \<in> set (entries ?V) \<longleftrightarrow> lastRead lab rd ps L = Some x" for L x
  proof -
    from d have "(L, x) \<in> set (entries ?V) \<longleftrightarrow> map_of (entries ?V) L = Some x"
      by simp
    also have "\<dots> \<longleftrightarrow> lastRead lab rd ps L = Some x"
      by (simp add: map_of_setEach Reset_def split: option.splits)
    finally show ?thesis .
  qed
  have "m \<in> set (GaugeVec_Collect ?V) \<longleftrightarrow>
          desc m = vecDesc v \<and> valueType m = GaugeValue
          \<and> (labelValues m, metricValue m) \<in> set (entries ?V)"
  proof
    assume "m \<in> set (GaugeVec_Collect ?V)"
    then obtain L x where "(L, x) \<in> set (entries ?V)"
      and "m = \<lparr>desc = vecDesc ?V, valueType = GaugeValue, metricValue = x, labelValues = L\<rparr>"
      by (auto simp: GaugeVec_Collect_def)
    then show "desc m = vecDesc v \<and> valueType m = GaugeValue
          \<and> (labelValues m, metricValue m) \<in> set (entries ?V)"
      by (simp add: vecDesc_setEach vecDesc_Reset)
  next
    assume a: "desc m = vecDesc v \<and> valueType m = GaugeValue
          \<and> (labelValues m, metricValue m) \<in> set (entries ?V)"
    then have "m = \<lparr>desc = vecDesc ?V, valueType = GaugeValue, metricValue = metricValue m,
                    labelValues = labelValues m\<rparr>"
      by (simp add: vecDesc_setEach vecDesc_Reset)
    with a show "m \<in> set (GaugeVec_Collect ?V)"
      by (force simp: GaugeVec_Collect_def)
  qed
  with look show ?thesis by simp
qed

lemma Collect_vec_distinct:
  "distinct (map labelValues (GaugeVec_Collect (setEach lab rd ps (Reset v))))"
proof -
  have "distinct (map fst (entries (setEach lab rd ps (Reset v))))"
    by (rule setEach_distinct) (simp add: Reset_def)
  moreover have "map labelValues (GaugeVec_Collect (setEach lab rd ps (Reset v)))
                   = map fst (entries (setEach lab rd ps (Reset v)))"
    by (simp add: GaugeVec_Collect_def case_prod_unfold comp_def)
  ultimately show ?thesis by simp
qed

section \<open>The process collector: one cycle\<close>

lemma collectProcess_step:
  "collectProcess p vs =
     (case CPUPercent p of Inr x \<Rightarrow> WithLabelValues_Set (processLabels p) x (fst vs)
                         | Inl _ \<Rightarrow> fst vs,
      case memoryMBOf p of Inr x \<Rightarrow> WithLabelValues_Set (processLabels p) x (snd vs)
                         | Inl _ \<Rightarrow> snd vs)"
  by (simp add: collectProcess_def processLabels_def memoryMBOf_def Let_def split: sum.splits)

lemma collectProcess_000_step:
  "collectProcess_000 p vs =
     (case CPUPercent p of Inr x \<Rightarrow> WithLabelValues_Set (processLabels_000 p) x (fst vs)
                         | Inl _ \<Rightarrow> fst vs,
      case memoryMBOf p of Inr x \<Rightarrow> WithLabelValues_Set (processLabels_000 p) x (snd vs)
                         | Inl _ \<Rightarrow> snd vs)"
  by (simp add: collectProcess_000_def memoryMBOf_def Let_def split: sum.splits)

lemma fold_collectProcess:
  "fold collectProcess ps vs =
     (setEach processLabels CPUPercent ps (fst vs), setEach processLabels memoryMBOf ps (snd vs))"
proof (induction ps rule: rev_induct)
  case Nil
  then show ?case by (simp add: setEach_Nil)
next
  case (snoc q ps)
  have "fold collectProcess (ps @ [q]) vs = collectProcess q (fold collectProcess ps vs)"
    by simp
  also have "\<dots> = collectProcess q (setEach processLabels CPUPercent ps (fst vs),
                                     setEach processLabels memoryMBOf ps (snd vs))"
    by (simp only: snoc)
  also have "\<dots> = (setEach processLabels CPUPercent (ps @ [q]) (fst vs),
                      setEach processLabels memoryMBOf (ps @ [q]) (snd vs))"
    unfolding collectProcess_step [of q "(setEach processLabels CPUPercent ps (fst vs),
                                        setEach processLabels memoryMBOf ps (snd vs))"]
    by (simp add: setEach_snoc split: sum.splits)
  finally show ?case .
qed

lemma fold_collectProcess_000:
  "fold collectProcess_000 ps vs =
     (setEach processLabels_000 CPUPercent ps (fst vs),
      setEach processLabels_000 memoryMBOf ps (snd vs))"
proof (induction ps rule: rev_induct)
  case Nil
  then show ?case by (simp add: setEach_Nil)
next
  case (snoc q ps)
  have "fold collectProcess_000 (ps @ [q]) vs
          = collectProcess_000 q (fold collectProcess_000 ps vs)"
    by simp
  also have "\<dots> = collectProcess_000 q (setEach processLabels_000 CPUPercent ps (fst vs),
                                         setEach processLabels_000 memoryMBOf ps (snd vs))"
    by (simp only: snoc)
  also have "\<dots> = (setEach processLabels_000 CPUPercent (ps @ [q]) (fst vs),
                      setEach processLabels_000 memoryMBOf (ps @ [q]) (snd vs))"
    unfolding collectProcess_000_step [of q "(setEach processLabels_000 CPUPercent ps (fst vs),
                                        setEach processLabels_000 memoryMBOf ps (snd vs))"]
    by (simp add: setEach_snoc split: sum.splits)
  finally show ?case .
qed

lemma Collect_listed:
  assumes "cpuPercent c = Some cv" and "memoryMB c = Some mv"
  shows "GinProcessCollector_Collect c (Inr ps) =
           Return (c\<lparr>cpuPercent := Some (setEach processLabels CPUPercent ps (Reset cv)),
                     memoryMB := Some (setEach processLabels memoryMBOf ps (Reset mv))\<rparr>,
                   GaugeVec_Collect (setEach processLabels CPUPercent ps (Reset cv))
                     @ GaugeVec_Collect (setEach processLabels memoryMBOf ps (Reset mv)),
                   None)"
  using assms by (simp add: GinProcessCollector_Collect_def fold_collectProcess Let_def)

lemma Collect_failed:
  assumes "cpuPercent c = Some cv" and "memoryMB c = Some mv"
  shows "GinProcessCollector_Collect c (Inl e) =
           Return (c\<lparr>cpuPercent := Some (Reset cv), memoryMB := Some (Reset mv)\<rparr>, [], Some e)"
  using assms by (simp add: GinProcessCollector_Collect_def)

lemma Collect_000_listed:
  assumes "cpuPercent c = Some cv" and "memoryMB c = Some mv"
  shows "GinProcessCollector_Collect_000 c (Inr ps) =
           Return (c\<lparr>cpuPercent := Some (setEach processLabels_000 CPUPercent ps (Reset cv)),
                     memoryMB := Some (setEach processLabels_000 memoryMBOf ps (Reset mv))\<rparr>,
                   GaugeVec_Collect (setEach processLabels_000 CPUPercent ps (Reset cv))
                     @ GaugeVec_Collect (setEach processLabels_000 memoryMBOf ps (Reset mv)),
                   None)"
  using assms by (simp add: GinProcessCollector_Collect_000_def fold_collectProcess_000 Let_def)

lemma Collect_000_failed:
  assumes "cpuPercent c = Some cv" and "memoryMB c = Some mv"
  shows "GinProcessCollector_Collect_000 c (Inl e) =
           Return (c\<lparr>cpuPercent := Some (Reset cv), memoryMB := Some (Reset mv)\<rparr>, [], Some e)"
  using assms by (simp add: GinProcessCollector_Collect_000_def)

lemma Collect_returns_built:
  "GinProcessCollector_Collect c r = Return x \<Longrightarrow> cpuPercent c \<noteq> None \<and> memoryMB c \<noteq> None"
  by (auto simp: GinProcessCollector_Collect_def split: option.splits)

lemma Collect_000_returns_built:
  "GinProcessCollector_Collect_000 c r = Return x \<Longrightarrow> cpuPercent c \<noteq> None \<and> memoryMB c \<noteq> None"
  by (auto simp: GinProcessCollector_Collect_000_def split: option.splits)

lemma processLabels_Pid: "processLabels q = processLabels p \<Longrightarrow> Pid q = Pid p"
  by (auto simp: processLabels_def dest!: Itoa_inj intro: signed_word_eqI)

lemma processLabels_000_Pid: "processLabels_000 q = processLabels_000 p \<Longrightarrow> Pid q = Pid p"
  by (auto simp: processLabels_000_def Let_def dest!: Itoa_inj intro: signed_word_eqI)

lemma memoryMBOf_Inr:
  "MemoryInfo p = Inr mem \<Longrightarrow> memoryMBOf p = Inr (float64_of_uint64 (RSS mem) / 1024 / 1024)"
  by (simp add: memoryMBOf_def)

lemma memoryMBOf_Inl: "MemoryInfo p = Inl e \<Longrightarrow> memoryMBOf p = Inl e"
  by (simp add: memoryMBOf_def)

text \<open>
  One cycle of either version of the process collector, for a collector whose two
  vectors exist: \<open>F\<close> is the \<open>Collect\<close> of the version and \<open>lab\<close> its label values. The
  output is the gauges of the CPU vector followed by those of the memory vector.
\<close>

lemma cycle_of_built_collector:
  fixes F :: "GinProcessCollector \<Rightarrow> error + Process list
                \<Rightarrow> (GinProcessCollector \<times> Metric list \<times> error option) run"
  assumes listed: "\<And>c cv mv ps. cpuPercent c = Some cv \<Longrightarrow> memoryMB c = Some mv \<Longrightarrow>
            F c (Inr ps) =
              Return (c\<lparr>cpuPercent := Some (setEach lab CPUPercent ps (Reset cv)),
                        memoryMB := Some (setEach lab memoryMBOf ps (Reset mv))\<rparr>,
                      GaugeVec_Collect (setEach lab CPUPercent ps (Reset cv))
                        @ GaugeVec_Collect (setEach lab memoryMBOf ps (Reset mv)),
                      None)"
    and failed: "\<And>c cv mv e. cpuPercent c = Some cv \<Longrightarrow> memoryMB c = Some mv \<Longrightarrow>
            F c (Inl e) =
              Return (c\<lparr>cpuPercent := Some (Reset cv), memoryMB := Some (Reset mv)\<rparr>,
                      [], Some e)"
    and built: "cpuPercent c = Some cv" "memoryMB c = Some mv"
  shows "\<exists>c' oc om err cv' mv'.
           F c r = Return (c', oc @ om, err)
         \<and> cpuPercent c' = Some cv' \<and> memoryMB c' = Some mv'
         \<and> vecDesc cv' = vecDesc cv \<and> vecDesc mv' = vecDesc mv
         \<and> (err \<noteq> None \<longleftrightarrow> isl r)
         \<and> (\<forall>e. r = Inl e \<longrightarrow> err = Some e \<and> oc = [] \<and> om = [])
         \<and> (\<forall>procs. r = Inr procs \<longrightarrow> err = None
               \<and> distinct (map labelValues oc) \<and> distinct (map labelValues om)
               \<and> (\<forall>m. m \<in> set oc \<longleftrightarrow> desc m = vecDesc cv \<and> valueType m = GaugeValue
                      \<and> lastRead lab CPUPercent procs (labelValues m) = Some (metricValue m))
               \<and> (\<forall>m. m \<in> set om \<longleftrightarrow> desc m = vecDesc mv \<and> valueType m = GaugeValue
                      \<and> lastRead lab memoryMBOf procs (labelValues m) = Some (metricValue m)))"
proof (cases r)
  case (Inl e)
  have "F c r = Return (c\<lparr>cpuPercent := Some (Reset cv), memoryMB := Some (Reset mv)\<rparr>,
                        [] @ [], Some e)"
    using failed [OF built, of e] Inl by simp
  with Inl show ?thesis
    by (intro exI [of _ "[]"] exI [of _ "c\<lparr>cpuPercent := Some (Reset cv), memoryMB := Some (Reset mv)\<rparr>"]
          exI [of _ "Some e"] exI [of _ "Reset cv"] exI [of _ "Reset mv"])
       (simp add: vecDesc_Reset)
next
  case (Inr ps)
  let ?cv = "setEach lab CPUPercent ps (Reset cv)"
  let ?mv = "setEach lab memoryMBOf ps (Reset mv)"
  have run: "F c r = Return (c\<lparr>cpuPercent := Some ?cv, memoryMB := Some ?mv\<rparr>,
                          GaugeVec_Collect ?cv @ GaugeVec_Collect ?mv, None)"
    using listed [OF built, of ps] Inr by simp
  show ?thesis
    apply (rule exI [of _ "c\<lparr>cpuPercent := Some ?cv, memoryMB := Some ?mv\<rparr>"])
    apply (rule exI [of _ "GaugeVec_Collect ?cv"])
    apply (rule exI [of _ "GaugeVec_Collect ?mv"])
    apply (rule exI [of _ None])
    apply (rule exI [of _ ?cv])
    apply (rule exI [of _ ?mv])
    using run Inr
    apply (simp add: vecDesc_setEach vecDesc_Reset Collect_vec_distinct Collect_vec_iff)
    done
qed

section \<open>The process collector: claims\<close>

text \<open>
  In the claims below the collector is one whose two vectors exist, that is, one on
  which \<open>Build\<close> has run. \<open>Collect\<close> resets the vectors before it enumerates the
  processes, and a reset through a nil vector panics; so every cycle that enumerates,
  and every cycle that returns, is a cycle of such a collector.
\<close>

lemmas process_eval =
  GinProcessCollector_Collect_def GinProcessCollector_Build_def collectProcess_def
  GinProcessCollector_Collect_000_def GinProcessCollector_Build_000_def collectProcess_000_def
  processLabels_000_def processLabels_def NewGinProcess_def
  NewGaugeVec_def NewDesc_def BuildFQName_def Reset_def WithLabelValues_Set_def
  GaugeVec_Collect_def float64_of_uint64_def Let_def

lemma Itoa_small:
  "Itoa 4 = ''4''"
  "Itoa 7 = ''7''"
  "Itoa 8 = ''8''"
  "Itoa 9 = ''9''"
  "Itoa 100 = ''100''"
  by (simp_all add: Itoa_def FormatUint10.simps digit_def char_of_eq_iff)

text \<open>
  C3: the gauge vectors are reset in every cycle. For two consecutive \<open>Collect\<close> calls,
  the output of the second is the gauges of the CPU vector followed by those of the
  memory vector, and each of the two is fixed by the second enumeration alone: a gauge
  is in it exactly when its label values are those of a process of the second
  enumeration whose read for that family succeeded, with the value read last for these
  label values. Neither the first cycle nor the state of the vectors before it has a
  part in it. So every gauge the second call sends belongs to a process read in the
  second cycle, a label tuple set in the first cycle and not set again in the second is
  absent from the output of the second, and when the second enumeration fails nothing
  is sent. This holds for both versions of the collector.
\<close>

theorem gauge_vectors_reset_each_cycle:
  assumes "cpuPercent c0 = Some cv" and "memoryMB c0 = Some mv"
  shows "(\<exists>c1 out1 e1 c2 oc om e2.
            GinProcessCollector_Collect c0 r1 = Return (c1, out1, e1)
          \<and> GinProcessCollector_Collect c1 r2 = Return (c2, oc @ om, e2)
          \<and> (\<forall>e. r2 = Inl e \<longrightarrow> oc = [] \<and> om = [])
          \<and> (\<forall>procs. r2 = Inr procs \<longrightarrow>
                (\<forall>m. m \<in> set oc \<longleftrightarrow> desc m = vecDesc cv \<and> valueType m = GaugeValue
                   \<and> lastRead processLabels CPUPercent procs (labelValues m) = Some (metricValue m))
              \<and> (\<forall>m. m \<in> set om \<longleftrightarrow> desc m = vecDesc mv \<and> valueType m = GaugeValue
                   \<and> lastRead processLabels memoryMBOf procs (labelValues m) = Some (metricValue m)))
          \<and> (\<forall>m \<in> set (oc @ om). \<exists>procs p. r2 = Inr procs \<and> p \<in> set procs
                \<and> labelValues m = [Itoa (sint (Pid p)), fst (Process.Name p)]
                \<and> (m \<in> set oc \<and> CPUPercent p = Inr (metricValue m)
                   \<or> m \<in> set om \<and> memoryMBOf p = Inr (metricValue m))))
       \<and> (\<exists>c1 out1 e1 c2 oc om e2.
            GinProcessCollector_Collect_000 c0 r1 = Return (c1, out1, e1)
          \<and> GinProcessCollector_Collect_000 c1 r2 = Return (c2, oc @ om, e2)
          \<and> (\<forall>e. r2 = Inl e \<longrightarrow> oc = [] \<and> om = [])
          \<and> (\<forall>procs. r2 = Inr procs \<longrightarrow>
                (\<forall>m. m \<in> set oc \<longleftrightarrow> desc m = vecDesc cv \<and> valueType m = GaugeValue
                   \<and> lastRead processLabels_000 CPUPercent procs (labelValues m) = Some (metricValue m))
              \<and> (\<forall>m. m \<in> set om \<longleftrightarrow> desc m = vecDesc mv \<and> valueType m = GaugeValue
                   \<and> lastRead processLabels_000 memoryMBOf procs (labelValues m) = Some (metricValue m)))
          \<and> (\<forall>m \<in> set (oc @ om). \<exists>procs p. r2 = Inr procs \<and> p \<in> set procs
                \<and> labelValues m = processLabels_000 p
                \<and> (m \<in> set oc \<and> CPUPercent p = Inr (metricValue m)
                   \<or> m \<in> set om \<and> memoryMBOf p = Inr (metricValue m))))"
proof -
  have two_cycles:
    "\<exists>c1 out1 e1 c2 oc om e2.
            F c0 r1 = Return (c1, out1, e1)
          \<and> F c1 r2 = Return (c2, oc @ om, e2)
          \<and> (\<forall>e. r2 = Inl e \<longrightarrow> oc = [] \<and> om = [])
          \<and> (\<forall>procs. r2 = Inr procs \<longrightarrow>
                (\<forall>m. m \<in> set oc \<longleftrightarrow> desc m = vecDesc cv \<and> valueType m = GaugeValue
                   \<and> lastRead lab CPUPercent procs (labelValues m) = Some (metricValue m))
              \<and> (\<forall>m. m \<in> set om \<longleftrightarrow> desc m = vecDesc mv \<and> valueType m = GaugeValue
                   \<and> lastRead lab memoryMBOf procs (labelValues m) = Some (metricValue m)))
          \<and> (\<forall>m \<in> set (oc @ om). \<exists>procs p. r2 = Inr procs \<and> p \<in> set procs
                \<and> labelValues m = lab p
                \<and> (m \<in> set oc \<and> CPUPercent p = Inr (metricValue m)
                   \<or> m \<in> set om \<and> memoryMBOf p = Inr (metricValue m)))"
    if listed: "\<And>c cv mv ps. cpuPercent c = Some cv \<Longrightarrow> memoryMB c = Some mv \<Longrightarrow>
            F c (Inr ps) =
              Return (c\<lparr>cpuPercent := Some (setEach lab CPUPercent ps (Reset cv)),
                        memoryMB := Some (setEach lab memoryMBOf ps (Reset mv))\<rparr>,
                      GaugeVec_Collect (setEach lab CPUPercent ps (Reset cv))
                        @ GaugeVec_Collect (setEach lab memoryMBOf ps (Reset mv)),
                      None)"
    and failed: "\<And>c cv mv e. cpuPercent c = Some cv \<Longrightarrow> memoryMB c = Some mv \<Longrightarrow>
            F c (Inl e) =
              Return (c\<lparr>cpuPercent := Some (Reset cv), memoryMB := Some (Reset mv)\<rparr>,
                      [], Some e)"
    for F :: "GinProcessCollector \<Rightarrow> error + Process list
                \<Rightarrow> (GinProcessCollector \<times> Metric list \<times> error option) run"
      and lab
  proof -
    from cycle_of_built_collector [of F lab, OF listed failed assms, of r1]
    obtain c1 out1 e1 cv1 mv1 where
      first: "F c0 r1 = Return (c1, out1, e1)"
      and built1: "cpuPercent c1 = Some cv1" "memoryMB c1 = Some mv1"
      and descs: "vecDesc cv1 = vecDesc cv" "vecDesc mv1 = vecDesc mv"
      by blast
    from cycle_of_built_collector [of F lab, OF listed failed built1, of r2]
    obtain c2 oc om e2 where
      second: "F c1 r2 = Return (c2, oc @ om, e2)"
      and none: "\<forall>e. r2 = Inl e \<longrightarrow> oc = [] \<and> om = []"
      and exact: "\<forall>procs. r2 = Inr procs \<longrightarrow>
                (\<forall>m. m \<in> set oc \<longleftrightarrow> desc m = vecDesc cv1 \<and> valueType m = GaugeValue
                   \<and> lastRead lab CPUPercent procs (labelValues m) = Some (metricValue m))
              \<and> (\<forall>m. m \<in> set om \<longleftrightarrow> desc m = vecDesc mv1 \<and> valueType m = GaugeValue
                   \<and> lastRead lab memoryMBOf procs (labelValues m) = Some (metricValue m))"
      by blast
    note exact' = exact [unfolded descs]
    have belongs: "\<forall>m \<in> set (oc @ om). \<exists>procs p. r2 = Inr procs \<and> p \<in> set procs
                \<and> labelValues m = lab p
                \<and> (m \<in> set oc \<and> CPUPercent p = Inr (metricValue m)
                   \<or> m \<in> set om \<and> memoryMBOf p = Inr (metricValue m))"
    proof (rule ballI)
      fix m
      assume m: "m \<in> set (oc @ om)"
      show "\<exists>procs p. r2 = Inr procs \<and> p \<in> set procs
                \<and> labelValues m = lab p
                \<and> (m \<in> set oc \<and> CPUPercent p = Inr (metricValue m)
                   \<or> m \<in> set om \<and> memoryMBOf p = Inr (metricValue m))"
      proof (cases r2)
        case (Inl e)
        with none m show ?thesis by simp
      next
        case (Inr procs)
        from m consider "m \<in> set oc" | "m \<in> set om" by auto
        then show ?thesis
        proof cases
          case 1
          with exact Inr have "lastRead lab CPUPercent procs (labelValues m) = Some (metricValue m)"
            by blast
          then obtain q where "q \<in> set procs" and "lab q = labelValues m"
            and "CPUPercent q = Inr (metricValue m)"
            using lastRead_origin [of lab CPUPercent procs "labelValues m" "metricValue m"] by blast
          with 1 Inr show ?thesis
            by (intro exI [of _ procs] exI [of _ q]) simp
        next
          case 2
          with exact Inr have "lastRead lab memoryMBOf procs (labelValues m) = Some (metricValue m)"
            by blast
          then obtain q where "q \<in> set procs" and "lab q = labelValues m"
            and "memoryMBOf q = Inr (metricValue m)"
            using lastRead_origin [of lab memoryMBOf procs "labelValues m" "metricValue m"] by blast
          with 2 Inr show ?thesis
            by (intro exI [of _ procs] exI [of _ q]) simp
        qed
      qed
    qed
    show ?thesis
      apply (rule exI [of _ c1])
      apply (rule exI [of _ out1])
      apply (rule exI [of _ e1])
      apply (rule exI [of _ c2])
      apply (rule exI [of _ oc])
      apply (rule exI [of _ om])
      apply (rule exI [of _ e2])
      apply (intro conjI)
          apply (rule first)
         apply (rule second)
        apply (rule none)
       apply (rule exact')
      apply (rule belongs)
      done
  qed
  have labs: "processLabels p = [Itoa (sint (Pid p)), fst (Process.Name p)]" for p
    by (simp add: processLabels_def)
  from two_cycles [of GinProcessCollector_Collect processLabels, OF Collect_listed Collect_failed]
       two_cycles [of GinProcessCollector_Collect_000 processLabels_000,
                   OF Collect_000_listed Collect_000_failed]
  show ?thesis
    unfolding labs by (rule conjI)
qed

theorem gauge_vectors_reset_each_cycle_witness:
  "\<exists>c1 out1 e1 c2 oc om e2.
      GinProcessCollector_Collect (fst (GinProcessCollector_Build NewGinProcess))
        (Inr [\<lparr>Pid = 7, Name = (''old'', None), Username = Inl ''denied'',
               Cmdline = Inl ''denied'', Status = Inl ''denied'', CPUPercent = Inr 1,
               MemoryInfo = Inr \<lparr>RSS = 2097152\<rparr>\<rparr>]) = Return (c1, out1, e1)
    \<and> GinProcessCollector_Collect c1
        (Inr [\<lparr>Pid = 9, Name = (''new'', None), Username = Inl ''denied'',
               Cmdline = Inl ''denied'', Status = Inl ''denied'', CPUPercent = Inr 3,
               MemoryInfo = Inl ''denied''\<rparr>]) = Return (c2, oc @ om, e2)
    \<and> [''7'', ''old''] \<in> labelValues ` set out1
    \<and> [''7'', ''old''] \<notin> labelValues ` set (oc @ om)
    \<and> [''9'', ''new''] \<in> labelValues ` set (oc @ om)"
proof -
  let ?c0 = "fst (GinProcessCollector_Build NewGinProcess)"
  let ?p1 = "\<lparr>Pid = 7, Name = (''old'', None), Username = Inl ''denied'',
               Cmdline = Inl ''denied'', Status = Inl ''denied'', CPUPercent = Inr 1,
               MemoryInfo = Inr \<lparr>RSS = 2097152\<rparr>\<rparr>"
  let ?p2 = "\<lparr>Pid = 9, Name = (''new'', None), Username = Inl ''denied'',
               Cmdline = Inl ''denied'', Status = Inl ''denied'', CPUPercent = Inr 3,
               MemoryInfo = Inl ''denied''\<rparr>"
  obtain cv mv where built: "cpuPercent ?c0 = Some cv" "memoryMB ?c0 = Some mv"
    by (simp add: GinProcessCollector_Build_def)
  from gauge_vectors_reset_each_cycle [OF built, of "Inr [?p1]" "Inr [?p2]", THEN conjunct1]
  have "\<exists>c1 out1 e1 c2 oc om e2.
      GinProcessCollector_Collect ?c0 (Inr [?p1]) = Return (c1, out1, e1)
    \<and> GinProcessCollector_Collect c1 (Inr [?p2]) = Return (c2, oc @ om, e2)
    \<and> (\<forall>m \<in> set (oc @ om). \<exists>procs p. Inr [?p2] = (Inr procs :: error + Process list) \<and> p \<in> set procs
                \<and> labelValues m = [Itoa (sint (Pid p)), fst (Process.Name p)]
                \<and> (m \<in> set oc \<and> CPUPercent p = Inr (metricValue m)
                   \<or> m \<in> set om \<and> memoryMBOf p = Inr (metricValue m)))"
    by (elim exE conjE) (intro exI conjI, assumption+)
  then obtain c1 out1 e1 c2 oc om e2 where
    first: "GinProcessCollector_Collect ?c0 (Inr [?p1]) = Return (c1, out1, e1)" and
    second: "GinProcessCollector_Collect c1 (Inr [?p2]) = Return (c2, oc @ om, e2)" and
    fresh: "\<forall>m \<in> set (oc @ om). \<exists>procs p. Inr [?p2] = (Inr procs :: error + Process list) \<and> p \<in> set procs
                \<and> labelValues m = [Itoa (sint (Pid p)), fst (Process.Name p)]
                \<and> (m \<in> set oc \<and> CPUPercent p = Inr (metricValue m)
                   \<or> m \<in> set om \<and> memoryMBOf p = Inr (metricValue m))"
    by blast
  have labels2: "labelValues m = [''9'', ''new'']" if "m \<in> set (oc @ om)" for m
  proof -
    from fresh that obtain procs p where "Inr [?p2] = (Inr procs :: error + Process list)"
      and "p \<in> set procs"
      and "labelValues m = [Itoa (sint (Pid p)), fst (Process.Name p)]"
      by blast
    then have "p = ?p2" by auto
    with \<open>labelValues m = [Itoa (sint (Pid p)), fst (Process.Name p)]\<close>
    show ?thesis by (simp add: Itoa_small)
  qed
  note vec_eval = setEach_def WithLabelValues_Set_def Reset_def GaugeVec_Collect_def
    processLabels_def memoryMBOf_def Itoa_small
  from first Collect_listed [OF built, of "[?p1]"]
  have c1: "c1 = ?c0\<lparr>cpuPercent := Some (setEach processLabels CPUPercent [?p1] (Reset cv)),
                       memoryMB := Some (setEach processLabels memoryMBOf [?p1] (Reset mv))\<rparr>"
    and out1: "out1 = GaugeVec_Collect (setEach processLabels CPUPercent [?p1] (Reset cv))
                 @ GaugeVec_Collect (setEach processLabels memoryMBOf [?p1] (Reset mv))"
    by simp_all
  from out1 have in1: "[''7'', ''old''] \<in> labelValues ` set out1"
    by (simp add: vec_eval)
  from c1 have built1:
    "cpuPercent c1 = Some (setEach processLabels CPUPercent [?p1] (Reset cv))"
    "memoryMB c1 = Some (setEach processLabels memoryMBOf [?p1] (Reset mv))"
    by simp_all
  from second Collect_listed [OF built1, of "[?p2]"]
  have "oc @ om = GaugeVec_Collect (setEach processLabels CPUPercent [?p2]
                     (Reset (setEach processLabels CPUPercent [?p1] (Reset cv))))
                 @ GaugeVec_Collect (setEach processLabels memoryMBOf [?p2]
                     (Reset (setEach processLabels memoryMBOf [?p1] (Reset mv))))"
    by simp
  then have "oc @ om \<noteq> []"
    by (simp add: vec_eval)
  then obtain m where m: "m \<in> set (oc @ om)" by (cases "oc @ om") auto
  with labels2 [OF m] have in2: "[''9'', ''new''] \<in> labelValues ` set (oc @ om)"
    by force
  have out2: "[''7'', ''old''] \<notin> labelValues ` set (oc @ om)"
    using labels2 by force
  from first second in1 in2 out2 show ?thesis by blast
qed

text \<open>
  C4: for a collector whose vectors exist, \<open>Collect\<close> returns, and the error it returns
  is not nil exactly when the enumeration of the processes failed; it is then the error
  of the enumeration, and nothing has been sent to the channel. When the enumeration
  succeeds the error is nil, whatever the reads of name, CPU and memory of the processes
  gave. A call that returns at all is a call on such a collector. This holds for both
  versions of the collector.
\<close>

theorem only_enumeration_failure_is_returned:
  "(cpuPercent c = Some cv \<and> memoryMB c = Some mv \<longrightarrow>
      (\<exists>c' out err. GinProcessCollector_Collect c r = Return (c', out, err)
            \<and> (err \<noteq> None \<longleftrightarrow> isl r)
            \<and> (\<forall>e. r = Inl e \<longrightarrow> err = Some e \<and> out = [])
            \<and> (\<forall>procs. r = Inr procs \<longrightarrow> err = None))
    \<and> (\<exists>c' out err. GinProcessCollector_Collect_000 c r = Return (c', out, err)
            \<and> (err \<noteq> None \<longleftrightarrow> isl r)
            \<and> (\<forall>e. r = Inl e \<longrightarrow> err = Some e \<and> out = [])
            \<and> (\<forall>procs. r = Inr procs \<longrightarrow> err = None)))
   \<and> (\<forall>x. GinProcessCollector_Collect c r = Return x \<longrightarrow>
          cpuPercent c \<noteq> None \<and> memoryMB c \<noteq> None)
   \<and> (\<forall>x. GinProcessCollector_Collect_000 c r = Return x \<longrightarrow>
          cpuPercent c \<noteq> None \<and> memoryMB c \<noteq> None)"
proof -
  have one: "\<exists>c' out err. F c r = Return (c', out, err)
            \<and> (err \<noteq> None \<longleftrightarrow> isl r)
            \<and> (\<forall>e. r = Inl e \<longrightarrow> err = Some e \<and> out = [])
            \<and> (\<forall>procs. r = Inr procs \<longrightarrow> err = None)"
    if built: "cpuPercent c = Some cv" "memoryMB c = Some mv"
    and listed: "\<And>c cv mv ps. cpuPercent c = Some cv \<Longrightarrow> memoryMB c = Some mv \<Longrightarrow>
            F c (Inr ps) =
              Return (c\<lparr>cpuPercent := Some (setEach lab CPUPercent ps (Reset cv)),
                        memoryMB := Some (setEach lab memoryMBOf ps (Reset mv))\<rparr>,
                      GaugeVec_Collect (setEach lab CPUPercent ps (Reset cv))
                        @ GaugeVec_Collect (setEach lab memoryMBOf ps (Reset mv)),
                      None)"
    and failed: "\<And>c cv mv e. cpuPercent c = Some cv \<Longrightarrow> memoryMB c = Some mv \<Longrightarrow>
            F c (Inl e) =
              Return (c\<lparr>cpuPercent := Some (Reset cv), memoryMB := Some (Reset mv)\<rparr>,
                      [], Some e)"
    for F :: "GinProcessCollector \<Rightarrow> error + Process list
                \<Rightarrow> (GinProcessCollector \<times> Metric list \<times> error option) run"
      and lab
  proof (cases r)
    case (Inl e)
    with failed [OF built, of e] show ?thesis by simp
  next
    case (Inr ps)
    with listed [OF built, of ps] show ?thesis by simp
  qed
  from one [of GinProcessCollector_Collect processLabels, OF _ _ Collect_listed Collect_failed]
       one [of GinProcessCollector_Collect_000 processLabels_000,
            OF _ _ Collect_000_listed Collect_000_failed]
       Collect_returns_built [of c r] Collect_000_returns_built [of c r]
  show ?thesis by blast
qed

theorem only_enumeration_failure_is_returned_witness:
  "(\<exists>c'. GinProcessCollector_Collect (fst (GinProcessCollector_Build NewGinProcess))
            (Inl ''access denied'') = Return (c', [], Some ''access denied''))
   \<and> (\<exists>c' out. GinProcessCollector_Collect_000 (fst (GinProcessCollector_Build_000 NewGinProcess))
            (Inr [\<lparr>Pid = 4, Name = ('''', Some ''denied''), Username = Inl ''denied'',
                   Cmdline = Inl ''denied'', Status = Inl ''denied'',
                   CPUPercent = Inl ''denied'', MemoryInfo = Inl ''denied''\<rparr>])
          = Return (c', out, None))"
proof -
  let ?p = "\<lparr>Pid = 4, Name = ('''', Some ''denied''), Username = Inl ''denied'',
                   Cmdline = Inl ''denied'', Status = Inl ''denied'',
                   CPUPercent = Inl ''denied'', MemoryInfo = Inl ''denied''\<rparr>"
  obtain cv mv where built:
    "cpuPercent (fst (GinProcessCollector_Build NewGinProcess)) = Some cv"
    "memoryMB (fst (GinProcessCollector_Build NewGinProcess)) = Some mv"
    by (simp add: GinProcessCollector_Build_def)
  obtain cv' mv' where built':
    "cpuPercent (fst (GinProcessCollector_Build_000 NewGinProcess)) = Some cv'"
    "memoryMB (fst (GinProcessCollector_Build_000 NewGinProcess)) = Some mv'"
    by (simp add: GinProcessCollector_Build_000_def)
  from only_enumeration_failure_is_returned
         [of "fst (GinProcessCollector_Build NewGinProcess)" cv mv "Inl ''access denied''"] built
  have "\<exists>c' out err. GinProcessCollector_Collect (fst (GinProcessCollector_Build NewGinProcess))
            (Inl ''access denied'') = Return (c', out, err)
            \<and> (\<forall>e. (Inl ''access denied'' :: error + Process list) = Inl e
                    \<longrightarrow> err = Some e \<and> out = [])"
    by (elim conjE impE) ((rule conjI | assumption)+, elim exE conjE,
          (rule exI conjI | assumption)+)
  then have a: "\<exists>c'. GinProcessCollector_Collect (fst (GinProcessCollector_Build NewGinProcess))
            (Inl ''access denied'') = Return (c', [], Some ''access denied'')"
    by auto
  from only_enumeration_failure_is_returned
         [of "fst (GinProcessCollector_Build_000 NewGinProcess)" cv' mv' "Inr [?p]"] built'
  have "\<exists>c' out err. GinProcessCollector_Collect_000
            (fst (GinProcessCollector_Build_000 NewGinProcess)) (Inr [?p]) = Return (c', out, err)
            \<and> (\<forall>procs. (Inr [?p] :: error + Process list) = Inr procs \<longrightarrow> err = None)"
    by (elim conjE impE) ((rule conjI | assumption)+, elim exE conjE,
          (rule exI conjI | assumption)+)
  then have b: "\<exists>c' out. GinProcessCollector_Collect_000
            (fst (GinProcessCollector_Build_000 NewGinProcess)) (Inr [?p]) = Return (c', out, None)"
    by auto
  from a b show ?thesis by (rule conjI)
qed

lemma lastRead_Some_iff:
  "(\<exists>x. lastRead lab rd ps L = Some x) \<longleftrightarrow> (\<exists>q \<in> set ps. lab q = L \<and> \<not> isl (rd q))"
proof
  assume "\<exists>x. lastRead lab rd ps L = Some x"
  then obtain x where "lastRead lab rd ps L = Some x" ..
  from lastRead_origin [OF this] show "\<exists>q \<in> set ps. lab q = L \<and> \<not> isl (rd q)"
    by auto
next
  assume "\<exists>q \<in> set ps. lab q = L \<and> \<not> isl (rd q)"
  then obtain q where q: "q \<in> set ps" and L: "lab q = L" and "\<not> isl (rd q)" by blast
  then obtain x where "rd q = Inr x" by (cases "rd q") auto
  from lastRead_present [of q ps rd x lab, OF q this] L
  show "\<exists>x. lastRead lab rd ps L = Some x" by simp
qed

lemma labels_of_vec:
  "L \<in> labelValues ` set (GaugeVec_Collect (setEach lab rd ps (Reset v)))
     \<longleftrightarrow> (\<exists>q \<in> set ps. lab q = L \<and> \<not> isl (rd q))"
proof -
  have "L \<in> labelValues ` set (GaugeVec_Collect (setEach lab rd ps (Reset v)))
          \<longleftrightarrow> (\<exists>x. lastRead lab rd ps L = Some x)"
  proof
    assume "L \<in> labelValues ` set (GaugeVec_Collect (setEach lab rd ps (Reset v)))"
    then obtain m where "m \<in> set (GaugeVec_Collect (setEach lab rd ps (Reset v)))"
      and "labelValues m = L" by auto
    then show "\<exists>x. lastRead lab rd ps L = Some x"
      by (auto simp: Collect_vec_iff)
  next
    assume "\<exists>x. lastRead lab rd ps L = Some x"
    then obtain x where x: "lastRead lab rd ps L = Some x" ..
    let ?m = "\<lparr>desc = vecDesc v, valueType = GaugeValue, metricValue = x, labelValues = L\<rparr>"
    from x have "?m \<in> set (GaugeVec_Collect (setEach lab rd ps (Reset v)))"
      by (simp add: Collect_vec_iff)
    moreover have "labelValues ?m = L" by simp
    ultimately show "L \<in> labelValues ` set (GaugeVec_Collect (setEach lab rd ps (Reset v)))"
      by (metis imageI)
  qed
  then show ?thesis by (simp only: lastRead_Some_iff)
qed

lemma isl_memoryMBOf: "isl (memoryMBOf p) = isl (MemoryInfo p)"
  by (simp add: memoryMBOf_def split: sum.splits)

lemma own_read_decides:
  assumes p: "p \<in> set ps" and same: "\<forall>q \<in> set ps. lab q = lab p \<longrightarrow> q = p"
  shows "case rd p of
           Inr x \<Rightarrow> \<lparr>desc = vecDesc v, valueType = GaugeValue, metricValue = x,
                      labelValues = lab p\<rparr> \<in> set (GaugeVec_Collect (setEach lab rd ps (Reset v)))
         | Inl _ \<Rightarrow> lab p \<notin> labelValues ` set (GaugeVec_Collect (setEach lab rd ps (Reset v)))"
proof (cases "rd p")
  case (Inr x)
  from lastRead_unique [of p ps rd x lab, OF p Inr same]
  have "\<lparr>desc = vecDesc v, valueType = GaugeValue, metricValue = x, labelValues = lab p\<rparr>
          \<in> set (GaugeVec_Collect (setEach lab rd ps (Reset v)))"
    by (simp add: Collect_vec_iff)
  with Inr show ?thesis by simp
next
  case (Inl e)
  have "\<not> (\<exists>q \<in> set ps. lab q = lab p \<and> \<not> isl (rd q))"
  proof
    assume "\<exists>q \<in> set ps. lab q = lab p \<and> \<not> isl (rd q)"
    then obtain q where "q \<in> set ps" and "lab q = lab p" and r: "\<not> isl (rd q)" by blast
    with same have "q = p" by blast
    with r Inl show False by simp
  qed
  then have "lab p \<notin> labelValues ` set (GaugeVec_Collect (setEach lab rd ps (Reset v)))"
    by (simp only: labels_of_vec not_False_eq_True)
  with Inl show ?thesis by simp
qed

lemma memoryMBOf_cases:
  "(case memoryMBOf p of Inr x \<Rightarrow> P x | Inl _ \<Rightarrow> Q)
     = (case MemoryInfo p of Inr mem \<Rightarrow> P (float64_of_uint64 (RSS mem) / 1024 / 1024)
                           | Inl _ \<Rightarrow> Q)"
  by (simp add: memoryMBOf_def split: sum.splits)

text \<open>
  C6: a read that fails for one measurement of a process does not drop the process.
  After a successful enumeration the output is the CPU gauges followed by the memory
  gauges, and each of the two families is decided by the reads of its own field alone:
  a label tuple has a CPU gauge exactly when the CPU read succeeded for some process
  with these label values, and a memory gauge exactly when the memory read succeeded
  for one, the value being the one read last for these label values. So for a process
  \<open>p\<close> of the enumeration whose CPU read failed and whose memory read succeeded, the
  memory gauge with the labels of \<open>p\<close> is sent. With process identifiers unique in the
  enumeration, each measurement of \<open>p\<close> is sent exactly when its own read succeeded:
  the gauge holds the value read for \<open>p\<close> (for memory the resident size divided by 1024
  twice), and no gauge of that family carries the labels of \<open>p\<close> when the read failed.
  This holds for both versions of the collector.
\<close>

theorem field_failure_keeps_record:
  assumes "cpuPercent c = Some cv" and "memoryMB c = Some mv" and "p \<in> set procs"
  shows "(\<exists>c' oc om. GinProcessCollector_Collect c (Inr procs) = Return (c', oc @ om, None)
          \<and> (\<forall>m. m \<in> set oc \<longleftrightarrow> desc m = vecDesc cv \<and> valueType m = GaugeValue
                \<and> lastRead processLabels CPUPercent procs (labelValues m) = Some (metricValue m))
          \<and> (\<forall>m. m \<in> set om \<longleftrightarrow> desc m = vecDesc mv \<and> valueType m = GaugeValue
                \<and> lastRead processLabels memoryMBOf procs (labelValues m) = Some (metricValue m))
          \<and> (processLabels p \<in> labelValues ` set oc
                \<longleftrightarrow> (\<exists>q \<in> set procs. processLabels q = processLabels p \<and> \<not> isl (CPUPercent q)))
          \<and> (processLabels p \<in> labelValues ` set om
                \<longleftrightarrow> (\<exists>q \<in> set procs. processLabels q = processLabels p \<and> \<not> isl (MemoryInfo q)))
          \<and> ((\<forall>q \<in> set procs. Pid q = Pid p \<longrightarrow> q = p) \<longrightarrow>
                (case CPUPercent p of
                   Inr cpu \<Rightarrow> \<lparr>desc = vecDesc cv, valueType = GaugeValue, metricValue = cpu,
                                labelValues = processLabels p\<rparr> \<in> set oc
                 | Inl _ \<Rightarrow> processLabels p \<notin> labelValues ` set oc)
              \<and> (case MemoryInfo p of
                   Inr mem \<Rightarrow> \<lparr>desc = vecDesc mv, valueType = GaugeValue,
                                metricValue = float64_of_uint64 (RSS mem) / 1024 / 1024,
                                labelValues = processLabels p\<rparr> \<in> set om
                 | Inl _ \<Rightarrow> processLabels p \<notin> labelValues ` set om)))
       \<and> (\<exists>c' oc om. GinProcessCollector_Collect_000 c (Inr procs) = Return (c', oc @ om, None)
          \<and> (\<forall>m. m \<in> set oc \<longleftrightarrow> desc m = vecDesc cv \<and> valueType m = GaugeValue
                \<and> lastRead processLabels_000 CPUPercent procs (labelValues m) = Some (metricValue m))
          \<and> (\<forall>m. m \<in> set om \<longleftrightarrow> desc m = vecDesc mv \<and> valueType m = GaugeValue
                \<and> lastRead processLabels_000 memoryMBOf procs (labelValues m) = Some (metricValue m))
          \<and> (processLabels_000 p \<in> labelValues ` set oc
                \<longleftrightarrow> (\<exists>q \<in> set procs. processLabels_000 q = processLabels_000 p
                                     \<and> \<not> isl (CPUPercent q)))
          \<and> (processLabels_000 p \<in> labelValues ` set om
                \<longleftrightarrow> (\<exists>q \<in> set procs. processLabels_000 q = processLabels_000 p
                                     \<and> \<not> isl (MemoryInfo q)))
          \<and> ((\<forall>q \<in> set procs. Pid q = Pid p \<longrightarrow> q = p) \<longrightarrow>
                (case CPUPercent p of
                   Inr cpu \<Rightarrow> \<lparr>desc = vecDesc cv, valueType = GaugeValue, metricValue = cpu,
                                labelValues = processLabels_000 p\<rparr> \<in> set oc
                 | Inl _ \<Rightarrow> processLabels_000 p \<notin> labelValues ` set oc)
              \<and> (case MemoryInfo p of
                   Inr mem \<Rightarrow> \<lparr>desc = vecDesc mv, valueType = GaugeValue,
                                metricValue = float64_of_uint64 (RSS mem) / 1024 / 1024,
                                labelValues = processLabels_000 p\<rparr> \<in> set om
                 | Inl _ \<Rightarrow> processLabels_000 p \<notin> labelValues ` set om)))"
proof -
  have one:
    "\<exists>c' oc om. F c (Inr procs) = Return (c', oc @ om, None)
          \<and> (\<forall>m. m \<in> set oc \<longleftrightarrow> desc m = vecDesc cv \<and> valueType m = GaugeValue
                \<and> lastRead lab CPUPercent procs (labelValues m) = Some (metricValue m))
          \<and> (\<forall>m. m \<in> set om \<longleftrightarrow> desc m = vecDesc mv \<and> valueType m = GaugeValue
                \<and> lastRead lab memoryMBOf procs (labelValues m) = Some (metricValue m))
          \<and> (lab p \<in> labelValues ` set oc
                \<longleftrightarrow> (\<exists>q \<in> set procs. lab q = lab p \<and> \<not> isl (CPUPercent q)))
          \<and> (lab p \<in> labelValues ` set om
                \<longleftrightarrow> (\<exists>q \<in> set procs. lab q = lab p \<and> \<not> isl (MemoryInfo q)))
          \<and> ((\<forall>q \<in> set procs. Pid q = Pid p \<longrightarrow> q = p) \<longrightarrow>
                (case CPUPercent p of
                   Inr cpu \<Rightarrow> \<lparr>desc = vecDesc cv, valueType = GaugeValue, metricValue = cpu,
                                labelValues = lab p\<rparr> \<in> set oc
                 | Inl _ \<Rightarrow> lab p \<notin> labelValues ` set oc)
              \<and> (case MemoryInfo p of
                   Inr mem \<Rightarrow> \<lparr>desc = vecDesc mv, valueType = GaugeValue,
                                metricValue = float64_of_uint64 (RSS mem) / 1024 / 1024,
                                labelValues = lab p\<rparr> \<in> set om
                 | Inl _ \<Rightarrow> lab p \<notin> labelValues ` set om))"
    if listed: "\<And>c cv mv ps. cpuPercent c = Some cv \<Longrightarrow> memoryMB c = Some mv \<Longrightarrow>
            F c (Inr ps) =
              Return (c\<lparr>cpuPercent := Some (setEach lab CPUPercent ps (Reset cv)),
                        memoryMB := Some (setEach lab memoryMBOf ps (Reset mv))\<rparr>,
                      GaugeVec_Collect (setEach lab CPUPercent ps (Reset cv))
                        @ GaugeVec_Collect (setEach lab memoryMBOf ps (Reset mv)),
                      None)"
    and pid: "\<And>q. lab q = lab p \<Longrightarrow> Pid q = Pid p"
    for F :: "GinProcessCollector \<Rightarrow> error + Process list
                \<Rightarrow> (GinProcessCollector \<times> Metric list \<times> error option) run"
      and lab
  proof -
    let ?oc = "GaugeVec_Collect (setEach lab CPUPercent procs (Reset cv))"
    let ?om = "GaugeVec_Collect (setEach lab memoryMBOf procs (Reset mv))"
    let ?c' = "c\<lparr>cpuPercent := Some (setEach lab CPUPercent procs (Reset cv)),
                  memoryMB := Some (setEach lab memoryMBOf procs (Reset mv))\<rparr>"
    have run: "F c (Inr procs) = Return (?c', ?oc @ ?om, None)"
      by (rule listed [OF assms(1,2)])
    have exact_c: "\<forall>m. m \<in> set ?oc \<longleftrightarrow> desc m = vecDesc cv \<and> valueType m = GaugeValue
                \<and> lastRead lab CPUPercent procs (labelValues m) = Some (metricValue m)"
      by (simp only: Collect_vec_iff) simp
    have exact_m: "\<forall>m. m \<in> set ?om \<longleftrightarrow> desc m = vecDesc mv \<and> valueType m = GaugeValue
                \<and> lastRead lab memoryMBOf procs (labelValues m) = Some (metricValue m)"
      by (simp only: Collect_vec_iff) simp
    have lab_c: "lab p \<in> labelValues ` set ?oc
                \<longleftrightarrow> (\<exists>q \<in> set procs. lab q = lab p \<and> \<not> isl (CPUPercent q))"
      by (rule labels_of_vec)
    have lab_m: "lab p \<in> labelValues ` set ?om
                \<longleftrightarrow> (\<exists>q \<in> set procs. lab q = lab p \<and> \<not> isl (MemoryInfo q))"
      using labels_of_vec [of "lab p" lab memoryMBOf procs mv] by (simp only: isl_memoryMBOf)
    have own: "(case CPUPercent p of
                   Inr cpu \<Rightarrow> \<lparr>desc = vecDesc cv, valueType = GaugeValue, metricValue = cpu,
                                labelValues = lab p\<rparr> \<in> set ?oc
                 | Inl _ \<Rightarrow> lab p \<notin> labelValues ` set ?oc)
              \<and> (case MemoryInfo p of
                   Inr mem \<Rightarrow> \<lparr>desc = vecDesc mv, valueType = GaugeValue,
                                metricValue = float64_of_uint64 (RSS mem) / 1024 / 1024,
                                labelValues = lab p\<rparr> \<in> set ?om
                 | Inl _ \<Rightarrow> lab p \<notin> labelValues ` set ?om)"
      if uniq: "\<forall>q \<in> set procs. Pid q = Pid p \<longrightarrow> q = p"
    proof -
      from uniq pid have same: "\<forall>q \<in> set procs. lab q = lab p \<longrightarrow> q = p" by blast
      from own_read_decides [OF assms(3) same, of CPUPercent cv]
           own_read_decides [OF assms(3) same, of memoryMBOf mv]
      show ?thesis
        unfolding memoryMBOf_cases by (rule conjI)
    qed
    show ?thesis
      apply (rule exI [of _ ?c'])
      apply (rule exI [of _ ?oc])
      apply (rule exI [of _ ?om])
      apply (intro conjI impI)
            apply (rule run)
           apply (rule exact_c)
          apply (rule exact_m)
         apply (rule lab_c)
        apply (rule lab_m)
       apply (erule own [THEN conjunct1])
      apply (erule own [THEN conjunct2])
      done
  qed
  from one [of GinProcessCollector_Collect processLabels, OF Collect_listed processLabels_Pid]
       one [of GinProcessCollector_Collect_000 processLabels_000,
            OF Collect_000_listed processLabels_000_Pid]
  show ?thesis by (rule conjI)
qed

theorem field_failure_keeps_record_witness:
  "\<exists>c' oc om.
      GinProcessCollector_Collect (fst (GinProcessCollector_Build NewGinProcess))
        (Inr [\<lparr>Pid = 4, Name = (''svc'', None), Username = Inl ''denied'',
               Cmdline = Inl ''denied'', Status = Inl ''denied'',
               CPUPercent = Inl ''access denied'', MemoryInfo = Inr \<lparr>RSS = 3145728\<rparr>\<rparr>,
              \<lparr>Pid = 8, Name = (''w3wp'', None), Username = Inr ''iis'',
               Cmdline = Inr ''w3wp.exe'', Status = Inr [''running''],
               CPUPercent = Inr (5 / 2), MemoryInfo = Inl ''access denied''\<rparr>])
        = Return (c', oc @ om, None)
    \<and> \<lparr>desc = \<lparr>fqName = ''windows_ginprocess_memory_mb'',
                helpText = ''Memory usage in MB per process'',
                variableLabels = [''pid'', ''name'']\<rparr>,
         valueType = GaugeValue, metricValue = 3, labelValues = [''4'', ''svc'']\<rparr> \<in> set om
    \<and> [''4'', ''svc''] \<notin> labelValues ` set oc"
proof -
  let ?c0 = "fst (GinProcessCollector_Build NewGinProcess)"
  let ?p1 = "\<lparr>Pid = 4, Name = (''svc'', None), Username = Inl ''denied'',
               Cmdline = Inl ''denied'', Status = Inl ''denied'',
               CPUPercent = Inl ''access denied'', MemoryInfo = Inr \<lparr>RSS = 3145728\<rparr>\<rparr>"
  let ?p2 = "\<lparr>Pid = 8, Name = (''w3wp'', None), Username = Inr ''iis'',
               Cmdline = Inr ''w3wp.exe'', Status = Inr [''running''],
               CPUPercent = Inr (5 / 2), MemoryInfo = Inl ''access denied''\<rparr>"
  let ?cv = "NewGaugeVec \<lparr>Namespace = ''windows'', Subsystem = ''ginprocess'',
                Name = ''cpu_percent'', Help = ''CPU utilization percent per process''\<rparr>
              [''pid'', ''name'']"
  let ?mv = "NewGaugeVec \<lparr>Namespace = ''windows'', Subsystem = ''ginprocess'',
                Name = ''memory_mb'', Help = ''Memory usage in MB per process''\<rparr>
              [''pid'', ''name'']"
  have built: "cpuPercent ?c0 = Some ?cv" "memoryMB ?c0 = Some ?mv"
    by (simp_all add: GinProcessCollector_Build_def)
  have member: "?p1 \<in> set [?p1, ?p2]" by simp
  have uniq: "\<forall>q \<in> set [?p1, ?p2]. Pid q = Pid ?p1 \<longrightarrow> q = ?p1" by simp
  from field_failure_keeps_record [OF built member, THEN conjunct1]
  obtain c' oc om where
    run: "GinProcessCollector_Collect ?c0 (Inr [?p1, ?p2]) = Return (c', oc @ om, None)"
    and own: "(\<forall>q \<in> set [?p1, ?p2]. Pid q = Pid ?p1 \<longrightarrow> q = ?p1) \<longrightarrow>
                (case CPUPercent ?p1 of
                   Inr cpu \<Rightarrow> \<lparr>desc = vecDesc ?cv, valueType = GaugeValue, metricValue = cpu,
                                labelValues = processLabels ?p1\<rparr> \<in> set oc
                 | Inl _ \<Rightarrow> processLabels ?p1 \<notin> labelValues ` set oc)
              \<and> (case MemoryInfo ?p1 of
                   Inr mem \<Rightarrow> \<lparr>desc = vecDesc ?mv, valueType = GaugeValue,
                                metricValue = float64_of_uint64 (RSS mem) / 1024 / 1024,
                                labelValues = processLabels ?p1\<rparr> \<in> set om
                 | Inl _ \<Rightarrow> processLabels ?p1 \<notin> labelValues ` set om)"
    by (elim exE conjE) (rule that)
  from own uniq have
    "(case CPUPercent ?p1 of
                   Inr cpu \<Rightarrow> \<lparr>desc = vecDesc ?cv, valueType = GaugeValue, metricValue = cpu,
                                labelValues = processLabels ?p1\<rparr> \<in> set oc
                 | Inl _ \<Rightarrow> processLabels ?p1 \<notin> labelValues ` set oc)
              \<and> (case MemoryInfo ?p1 of
                   Inr mem \<Rightarrow> \<lparr>desc = vecDesc ?mv, valueType = GaugeValue,
                                metricValue = float64_of_uint64 (RSS mem) / 1024 / 1024,
                                labelValues = processLabels ?p1\<rparr> \<in> set om
                 | Inl _ \<Rightarrow> processLabels ?p1 \<notin> labelValues ` set om)"
    by (rule mp)
  then have
    "\<lparr>desc = \<lparr>fqName = ''windows_ginprocess_memory_mb'',
                helpText = ''Memory usage in MB per process'',
                variableLabels = [''pid'', ''name'']\<rparr>,
         valueType = GaugeValue, metricValue = 3, labelValues = [''4'', ''svc'']\<rparr> \<in> set om"
    and "[''4'', ''svc''] \<notin> labelValues ` set oc"
    by (simp_all add: processLabels_def Itoa_small NewGaugeVec_def NewDesc_def BuildFQName_def
          float64_of_uint64_def)
  with run show ?thesis by blast
qed

text \<open>
  C9: one process with identifier 100, name \<open>w3wp\<close>, CPU percent 12.5 and a resident
  size of 104857600 bytes. \<open>Collect\<close> of the collector that \<open>Build\<close> returns sends exactly
  two measurements: the CPU gauge with the labels pid \<open>100\<close> and name \<open>w3wp\<close> and the
  value 12.5, and the memory gauge with the same labels and the value 100.
\<close>

theorem end_to_end_w3wp:
  "\<exists>c'. GinProcessCollector_Collect (fst (GinProcessCollector_Build c))
          (Inr [\<lparr>Pid = 100, Name = (''w3wp'', e), Username = u, Cmdline = l, Status = s,
                 CPUPercent = Inr 12.5, MemoryInfo = Inr \<lparr>RSS = 104857600\<rparr>\<rparr>])
        = Return (c',
            [\<lparr>desc = \<lparr>fqName = ''windows_ginprocess_cpu_percent'',
                       helpText = ''CPU utilization percent per process'',
                       variableLabels = [''pid'', ''name'']\<rparr>,
              valueType = GaugeValue, metricValue = 12.5, labelValues = [''100'', ''w3wp'']\<rparr>,
             \<lparr>desc = \<lparr>fqName = ''windows_ginprocess_memory_mb'',
                       helpText = ''Memory usage in MB per process'',
                       variableLabels = [''pid'', ''name'']\<rparr>,
              valueType = GaugeValue, metricValue = 100, labelValues = [''100'', ''w3wp'']\<rparr>],
            None)"
  by (simp add: process_eval Itoa_small)

section \<open>The web application collector: one cycle\<close>

lemma webapp_Collect_sources:
  "GinWebAppCollector_Collect oob sampleAspNet sampleProcess sampleNetClr c =
     (sourceMetrics (aspNetColl c) sampleAspNet aspNetMetrics
        @ sourceMetrics (processColl c) sampleProcess (processMetrics oob)
        @ sourceMetrics (netClrColl c) sampleNetClr netClrMetrics,
      [], None)"
  by (simp add: GinWebAppCollector_Collect_def sourceMetrics_def)

lemma concat_map_filter_nonempty:
  "concat (map f (filter (\<lambda>d. f d \<noteq> []) ds)) = concat (map f ds)"
  by (induction ds) simp_all

lemma sourceMetrics_filter:
  assumes "\<And>d. P d \<Longrightarrow> f d = []"
  shows "sourceMetrics coll (\<lambda>h. map_sum id (filter (\<lambda>d. \<not> P d)) (sample h)) f
           = sourceMetrics coll sample f"
proof -
  have "concat (map f (filter (\<lambda>d. \<not> P d) ds)) = concat (map f ds)" for ds
    using assms by (induction ds) auto
  then show ?thesis
    by (cases coll) (auto simp: sourceMetrics_def split: sum.splits)
qed


lemma sourceMetrics_failed:
  "coll = Some h \<Longrightarrow> sample h = Inl e \<Longrightarrow> sourceMetrics coll sample f = []"
  by (simp add: sourceMetrics_def)

lemma sourceMetrics_sampled:
  "coll = Some h \<Longrightarrow> sample h = Inr ds \<Longrightarrow> sourceMetrics coll sample f = concat (map f ds)"
  by (simp add: sourceMetrics_def)

lemma aspNetMetrics_empty_iff:
  "aspNetMetrics d = [] \<longleftrightarrow> Contains (ToLower (aspNetValues.Name d)) ''__total__''"
  by (simp add: aspNetMetrics_def Let_def)

lemma netClrMetrics_empty_iff:
  "netClrMetrics d = [] \<longleftrightarrow> Contains (netClrValues.Name d) ''_Global_''"
  by (simp add: netClrMetrics_def)

lemma processMetrics_nonempty: "processMetrics oob d \<noteq> []"
  by (simp add: processMetrics_def Let_def)

lemma char_eq_char_of: "c = char_of (n::nat) \<longleftrightarrow> take_bit 8 n = of_char c"
  using char_of_eq_iff [of n c] by auto

lemma HasPrefix_map: "HasPrefix s t \<Longrightarrow> HasPrefix (map f s) (map f t)"
proof -
  assume "HasPrefix s t"
  then have len: "length t \<le> length s" and "take (length t) s = t"
    by (simp_all add: HasPrefix_def)
  then have "map f (take (length t) s) = map f t" by simp
  then have "take (length t) (map f s) = map f t" by (simp add: take_map)
  with len show ?thesis by (simp add: HasPrefix_def)
qed

lemma Contains_map: "Contains s t \<Longrightarrow> Contains (map f s) (map f t)"
proof (induction s)
  case Nil
  then show ?case by simp
next
  case (Cons c s)
  from Cons.prems have "HasPrefix (c # s) t \<or> Contains s t" by simp
  then show ?case
  proof
    assume "HasPrefix (c # s) t"
    from HasPrefix_map [OF this, of f] show ?thesis by simp
  next
    assume "Contains s t"
    with Cons.IH show ?thesis by simp
  qed
qed

lemma ToLower_Global: "ToLower ''_Global_'' = ''_global_''"
  by (simp add: ToLower_def toLowerByte_def char_of_eq_iff)

lemma Contains_Global_lower:
  "Contains s ''_Global_'' \<Longrightarrow> Contains (ToLower s) ''_global_''"
  using Contains_map [of s "''_Global_''" toLowerByte] ToLower_Global
  by (simp add: ToLower_def)

section \<open>The web application collector: claims\<close>

lemmas webapp_eval =
  GinWebAppCollector_Collect_def aspNetMetrics_def processMetrics_def netClrMetrics_def
  MustNewConstMetric_def NewDesc_def BuildFQName_def normalizeAspNetInstanceName_def
  ReplaceAll_def ToLower_def toLowerByte_def HasPrefix_def char_of_eq_iff char_eq_char_of
  Let_def

text \<open>
  C1, as the claim states it, fails: each marker is looked for in the records of its own
  source only, and the marker of the CLR source is looked for as it is written. A record
  of the ASP.NET source named \<open>_Global_\<close> sends its three measurements; a record of the
  CLR source named \<open>__total__\<close> sends its two; and so does a record of the CLR source
  named \<open>_global_\<close>, which holds the global marker but for the case of one letter.
\<close>

theorem markers_are_per_source:
  "Contains (ToLower ''_Global_'') (ToLower ''_Global_'')
   \<and> map labelValues (fst (GinWebAppCollector_Collect (\<lambda>_. 0)
        (\<lambda>_. Inr [\<lparr>aspNetValues.Name = ''_Global_'', RequestsSec = 1, RequestsExecuting = 2,
                     RequestsTotal = 3, ErrorsTotal = 0, OutputCacheTurnover = 0\<rparr>])
        (\<lambda>_. Inr []) (\<lambda>_. Inr [])
        \<lparr>logger = Some (), aspNetColl = Some (1::nat), processColl = None,
          netClrColl = None\<rparr>))
       = [[''_Global_''], [''_Global_''], [''_Global_'']]
   \<and> Contains (ToLower ''__total__'') ''__total__''
   \<and> map labelValues (fst (GinWebAppCollector_Collect (\<lambda>_. 0)
        (\<lambda>_. Inr []) (\<lambda>_. Inr [])
        (\<lambda>_. Inr [\<lparr>Name = ''__total__'', PercentTimeInGC = 1, BytesInAllHeaps = 2,
                     Gen0Collections = 0, Gen1Collections = 0, Gen2Collections = 0\<rparr>])
        \<lparr>logger = Some (), aspNetColl = None, processColl = None,
          netClrColl = Some (3::nat)\<rparr>))
       = [[''__total__''], [''__total__'']]
   \<and> Contains (ToLower ''_global_'') (ToLower ''_Global_'')
   \<and> map labelValues (fst (GinWebAppCollector_Collect (\<lambda>_. 0)
        (\<lambda>_. Inr []) (\<lambda>_. Inr [])
        (\<lambda>_. Inr [\<lparr>Name = ''_global_'', PercentTimeInGC = 1, BytesInAllHeaps = 2,
                     Gen0Collections = 0, Gen1Collections = 0, Gen2Collections = 0\<rparr>])
        \<lparr>logger = Some (), aspNetColl = None, processColl = None,
          netClrColl = Some (3::nat)\<rparr>))
       = [[''_global_''], [''_global_'']]"
  by (simp add: webapp_eval)

text \<open>
  C1, amended: a record of the ASP.NET source sends no measurement exactly when its
  identity, lowered, contains \<open>__total__\<close>; a record of the CLR source whose identity
  contains \<open>_Global_\<close> sends no measurement, and one whose identity does not contain the
  global marker in any case of its letters sends its measurements; a record of the
  Process source always sends its measurements. Taking the records with the marker of
  their own source out of the samples changes nothing of what \<open>Collect\<close> returns.
\<close>

theorem markers_skip_own_source:
  "GinWebAppCollector_Collect oob
      (\<lambda>h. map_sum id
              (filter (\<lambda>d. \<not> Contains (ToLower (aspNetValues.Name d)) ''__total__''))
              (sampleAspNet h))
      sampleProcess
      (\<lambda>h. map_sum id (filter (\<lambda>d. \<not> Contains (netClrValues.Name d) ''_Global_''))
              (sampleNetClr h))
      c
     = GinWebAppCollector_Collect oob sampleAspNet sampleProcess sampleNetClr c
   \<and> (aspNetMetrics a = [] \<longleftrightarrow> Contains (ToLower (aspNetValues.Name a)) ''__total__'')
   \<and> (Contains (netClrValues.Name n) ''_Global_'' \<longrightarrow> netClrMetrics n = [])
   \<and> (\<not> Contains (ToLower (netClrValues.Name n)) ''_global_'' \<longrightarrow> netClrMetrics n \<noteq> [])
   \<and> processMetrics oob p \<noteq> []"
proof -
  have asp: "sourceMetrics (aspNetColl c)
               (\<lambda>h. map_sum id
                  (filter (\<lambda>d. \<not> Contains (ToLower (aspNetValues.Name d)) ''__total__''))
                  (sampleAspNet h)) aspNetMetrics
             = sourceMetrics (aspNetColl c) sampleAspNet aspNetMetrics"
    by (rule sourceMetrics_filter) (simp add: aspNetMetrics_empty_iff)
  have clr: "sourceMetrics (netClrColl c)
               (\<lambda>h. map_sum id (filter (\<lambda>d. \<not> Contains (netClrValues.Name d) ''_Global_''))
                  (sampleNetClr h)) netClrMetrics
             = sourceMetrics (netClrColl c) sampleNetClr netClrMetrics"
    by (rule sourceMetrics_filter) (simp add: netClrMetrics_empty_iff)
  have same: "GinWebAppCollector_Collect oob
      (\<lambda>h. map_sum id
              (filter (\<lambda>d. \<not> Contains (ToLower (aspNetValues.Name d)) ''__total__''))
              (sampleAspNet h))
      sampleProcess
      (\<lambda>h. map_sum id (filter (\<lambda>d. \<not> Contains (netClrValues.Name d) ''_Global_''))
              (sampleNetClr h))
      c
     = GinWebAppCollector_Collect oob sampleAspNet sampleProcess sampleNetClr c"
    unfolding webapp_Collect_sources asp clr by (rule refl)
  have emitted: "\<not> Contains (ToLower (netClrValues.Name n)) ''_global_'' \<longrightarrow> netClrMetrics n \<noteq> []"
    using Contains_Global_lower [of "netClrValues.Name n"]
    by (auto simp: netClrMetrics_empty_iff)
  from same emitted show ?thesis
    by (simp add: aspNetMetrics_empty_iff netClrMetrics_empty_iff processMetrics_nonempty)
qed

theorem markers_skip_own_source_witness:
  "aspNetMetrics \<lparr>aspNetValues.Name = ''__Total__'', RequestsSec = 1, RequestsExecuting = 2,
                   RequestsTotal = 3, ErrorsTotal = 0, OutputCacheTurnover = 0\<rparr> = []
   \<and> netClrMetrics \<lparr>Name = ''_Global_'', PercentTimeInGC = 1, BytesInAllHeaps = 2,
                     Gen0Collections = 0, Gen1Collections = 0, Gen2Collections = 0\<rparr> = []
   \<and> netClrMetrics \<lparr>Name = ''w3wp'', PercentTimeInGC = 1, BytesInAllHeaps = 2,
                     Gen0Collections = 0, Gen1Collections = 0, Gen2Collections = 0\<rparr> \<noteq> []"
proof -
  let ?a = "\<lparr>aspNetValues.Name = ''__Total__'', RequestsSec = 1, RequestsExecuting = 2,
                   RequestsTotal = 3, ErrorsTotal = 0, OutputCacheTurnover = 0\<rparr>"
  let ?g = "\<lparr>Name = ''_Global_'', PercentTimeInGC = 1, BytesInAllHeaps = 2,
                     Gen0Collections = 0, Gen1Collections = 0, Gen2Collections = 0\<rparr>"
  let ?w = "\<lparr>Name = ''w3wp'', PercentTimeInGC = 1, BytesInAllHeaps = 2,
                     Gen0Collections = 0, Gen1Collections = 0, Gen2Collections = 0\<rparr>"
  note T = markers_skip_own_source
    [where oob = "\<lambda>_. 0" and sampleAspNet = "\<lambda>_::nat. Inr []" and sampleProcess = "\<lambda>_. Inr []"
       and sampleNetClr = "\<lambda>_. Inr []" and p = "\<lparr>processValues.Name = ''w3wp'', PercentProcessorTime = 0, WorkingSetPrivate = 0,
                    IOReadBytesSec = 0, IOWriteBytesSec = 0, IDProcess = 0\<rparr>"
       and c = "\<lparr>logger = Some (), aspNetColl = None, processColl = None, netClrColl = None\<rparr>"]
  have 1: "Contains (ToLower (aspNetValues.Name ?a)) ''__total__''"
    by (simp add: ToLower_def toLowerByte_def HasPrefix_def char_of_eq_iff)
  have 2: "Contains (netClrValues.Name ?g) ''_Global_''"
    by (simp add: HasPrefix_def)
  have 3: "\<not> Contains (ToLower (netClrValues.Name ?w)) ''_global_''"
    by (simp add: ToLower_def toLowerByte_def HasPrefix_def char_of_eq_iff)
  from T [where a = ?a and n = ?g] 1 2 have a: "aspNetMetrics ?a = []" and g: "netClrMetrics ?g = []"
    by blast+
  from T [where a = ?a and n = ?w] 3 have w: "netClrMetrics ?w \<noteq> []"
    by blast
  from a g w show ?thesis by blast
qed





text \<open>
  C10: \<open>Collect\<close> of the web application collector returns nil and writes nothing to the
  logger, whatever the handles are and whatever the sample calls return; when every
  sample call fails, nothing is sent either, so the errors are seen nowhere.
\<close>

theorem webapp_collect_returns_nil:
  "snd (GinWebAppCollector_Collect oob sampleAspNet sampleProcess sampleNetClr c) = ([], None)
   \<and> ((\<forall>h. isl (sampleAspNet h)) \<and> (\<forall>h. isl (sampleProcess h)) \<and> (\<forall>h. isl (sampleNetClr h))
        \<longrightarrow> GinWebAppCollector_Collect oob sampleAspNet sampleProcess sampleNetClr c
              = ([], [], None))"
proof -
  have none: "sourceMetrics coll s f = []" if "\<forall>h. isl (s h)"
    for coll :: "'h option" and s :: "'h \<Rightarrow> error + 'r list" and f
  proof (cases coll)
    case None
    then show ?thesis by (simp add: sourceMetrics_def)
  next
    case (Some h)
    from that have "isl (s h)" ..
    then obtain e where "s h = Inl e" by (cases "s h") auto
    with Some show ?thesis by (simp add: sourceMetrics_def)
  qed
  show ?thesis
    by (auto simp add: webapp_Collect_sources none)
qed

theorem webapp_collect_returns_nil_witness:
  "GinWebAppCollector_Collect (\<lambda>_. 0)
      (\<lambda>_. Inl ''no instances'') (\<lambda>_. Inl ''no instances'') (\<lambda>_. Inl ''no instances'')
      \<lparr>logger = Some (), aspNetColl = Some (1::nat), processColl = Some 2,
        netClrColl = Some 3\<rparr> = ([], [], None)"
  using webapp_collect_returns_nil
    [of "\<lambda>_. 0" "\<lambda>_. Inl ''no instances''" "\<lambda>_. Inl ''no instances''"
        "\<lambda>_. Inl ''no instances''"
        "\<lparr>logger = Some (), aspNetColl = Some (1::nat), processColl = Some 2,
          netClrColl = Some 3\<rparr>"]
  by simp

end
